theory Spec2Isabelle
  imports Main "HOL-Library.AList"
begin

section \<open>Values and collaborators of the directory watcher\<close>

text \<open>
  The model follows \<^verbatim>\<open>ctkCmdLineModuleDirectoryWatcher.cpp\<close>. A \<^verbatim>\<open>QString\<close> is a
  string, a \<^verbatim>\<open>QStringList\<close> a list of strings. A null \<^verbatim>\<open>QString\<close> is also empty, so
  the empty string stands for both.
\<close>

type_synonym QString = string
type_synonym QStringList = "QString list"

text \<open>\<^verbatim>\<open>QChar::isSpace\<close> on the characters a \<^typ>\<open>char\<close> can hold (code points below 256).\<close>

definition isSpace :: "char \<Rightarrow> bool" where
  "isSpace c = (let n = (of_char c :: nat) in n = 32 \<or> (9 \<le> n \<and> n \<le> 13) \<or> n = 133 \<or> n = 160)"

text \<open>\<^verbatim>\<open>QString::trimmed\<close>: whitespace removed from both ends.\<close>

definition trimmed :: "QString \<Rightarrow> QString" where
  "trimmed s = rev (dropWhile isSpace (rev (dropWhile isSpace s)))"

text \<open>
  A \<^verbatim>\<open>ctkCmdLineModuleReference\<close> is a handle that converts to \<^verbatim>\<open>bool\<close>: the
  default-constructed reference is invalid (\<open>None\<close>), a reference obtained from a
  registration is \<open>Some h\<close>.
\<close>

type_synonym ctkCmdLineModuleReference = "nat option"

text \<open>What \<^verbatim>\<open>registerModule\<close> can throw, as \<^verbatim>\<open>AddModule\<close> tells it apart.\<close>

datatype exn = CtkException | UnknownException

text \<open>
  The disk as the watcher reads it through \<^verbatim>\<open>QDir\<close> and \<^verbatim>\<open>QFileInfo\<close>. The file system
  is outside the program and changes between calls, so every operation that reads it takes
  the file system of that moment as a parameter. A \<^verbatim>\<open>QFileInfo\<close> is represented by the file
  name it was built from.
  \<^item> \<open>dirExists p\<close>: \<^verbatim>\<open>QDir(p).exists()\<close>, also what decides that a watched path is a directory;
  \<^item> \<open>dirAbsolutePath p\<close>: \<^verbatim>\<open>QDir(p).absolutePath()\<close>;
  \<^item> \<open>entryInfoList p\<close>: \<^verbatim>\<open>QDir(p).entryInfoList()\<close> under the filter
    \<^verbatim>\<open>Files | NoDotAndDotDot | Executable\<close>;
  \<^item> \<open>fileAbsolutePath f\<close>: \<^verbatim>\<open>QFileInfo(f).absolutePath()\<close>, the directory of \<open>f\<close>;
  \<^item> \<open>fileAbsoluteFilePath f\<close>: \<^verbatim>\<open>QFileInfo(f).absoluteFilePath()\<close>;
  \<^item> \<open>fileExists f\<close>: the path exists, so that a watch can be put on it.
\<close>

record filesystem =
  dirExists :: "QString \<Rightarrow> bool"
  dirAbsolutePath :: "QString \<Rightarrow> QString"
  entryInfoList :: "QString \<Rightarrow> QStringList"
  fileAbsolutePath :: "QString \<Rightarrow> QString"
  fileAbsoluteFilePath :: "QString \<Rightarrow> QString"
  fileExists :: "QString \<Rightarrow> bool"

text \<open>
  The module manager is a class of its own (\<^verbatim>\<open>ctkCmdLineModuleManager\<close>); the watcher only
  calls three of its methods. They are parameters of the model, over any type \<open>'m\<close> of
  manager states: \<open>registerModule\<close> returns a reference or throws, \<open>moduleReference\<close>
  looks a location up, \<open>unregisterModule\<close> removes a registration. The location is the
  file name (\<^verbatim>\<open>QUrl::fromLocalFile\<close> is one-to-one on it).
\<close>

record 'm ctkCmdLineModuleManager =
  registerModule :: "QString \<Rightarrow> 'm \<Rightarrow> (exn + ctkCmdLineModuleReference) \<times> 'm"
  moduleReference :: "QString \<Rightarrow> 'm \<Rightarrow> ctkCmdLineModuleReference"
  unregisterModule :: "ctkCmdLineModuleReference \<Rightarrow> 'm \<Rightarrow> 'm"

text \<open>
  The manager object the watcher points to: its state, and the history of the calls made
  on it. The history is what the statements about "an unregister call" or "no load
  operation" are about; no operation reads it.
\<close>

datatype call =
    RegisterModule QString
  | ModuleReference QString
  | UnregisterModule ctkCmdLineModuleReference

record 'm manager_object =
  Impl :: 'm
  History :: "call list"

definition call_registerModule ::
  "'m ctkCmdLineModuleManager \<Rightarrow> QString \<Rightarrow> 'm manager_object
    \<Rightarrow> (exn + ctkCmdLineModuleReference) \<times> 'm manager_object" where
  "call_registerModule mgr location M =
     (case registerModule mgr location (Impl M) of
        (res, m') \<Rightarrow> (res, \<lparr>Impl = m', History = History M @ [RegisterModule location]\<rparr>))"

definition call_moduleReference ::
  "'m ctkCmdLineModuleManager \<Rightarrow> QString \<Rightarrow> 'm manager_object
    \<Rightarrow> ctkCmdLineModuleReference \<times> 'm manager_object" where
  "call_moduleReference mgr location M =
     (moduleReference mgr location (Impl M),
      M\<lparr>History := History M @ [ModuleReference location]\<rparr>)"

definition call_unregisterModule ::
  "'m ctkCmdLineModuleManager \<Rightarrow> ctkCmdLineModuleReference \<Rightarrow> 'm manager_object
    \<Rightarrow> 'm manager_object" where
  "call_unregisterModule mgr ref M =
     \<lparr>Impl = unregisterModule mgr ref (Impl M), History = History M @ [UnregisterModule ref]\<rparr>"

text \<open>
  \<^verbatim>\<open>QFileSystemWatcher\<close>, by its documented contract: it holds the watched directories and
  the watched files; \<^verbatim>\<open>addPaths\<close> skips an empty path, a path that is already watched and
  a path that does not exist, and files a path under the directories when it is a
  directory; \<^verbatim>\<open>removePaths\<close> stops watching each of the paths.
\<close>

record QFileSystemWatcher =
  watchedDirectories :: QStringList
  watchedFiles :: QStringList

definition addPath :: "filesystem \<Rightarrow> QString \<Rightarrow> QFileSystemWatcher \<Rightarrow> QFileSystemWatcher" where
  "addPath fs path w =
     (if path = [] then w
      else if dirExists fs path then
        (if path \<in> set (watchedDirectories w) then w
         else w\<lparr>watchedDirectories := watchedDirectories w @ [path]\<rparr>)
      else if fileExists fs path then
        (if path \<in> set (watchedFiles w) then w
         else w\<lparr>watchedFiles := watchedFiles w @ [path]\<rparr>)
      else w)"

definition addPaths :: "filesystem \<Rightarrow> QStringList \<Rightarrow> QFileSystemWatcher \<Rightarrow> QFileSystemWatcher" where
  "addPaths fs paths w = fold (addPath fs) paths w"

definition removePaths :: "QStringList \<Rightarrow> QFileSystemWatcher \<Rightarrow> QFileSystemWatcher" where
  "removePaths paths w =
     \<lparr>watchedDirectories = filter (\<lambda>p. p \<notin> set paths) (watchedDirectories w),
      watchedFiles = filter (\<lambda>p. p \<notin> set paths) (watchedFiles w)\<rparr>"

text \<open>
  \<^verbatim>\<open>QtConcurrent::blockingMapped\<close> applies a function object to every element and returns
  the results in the order of the input, after all of them have finished. The function
  objects here act on the manager; the model runs them one after the other, in the order
  of the input.
\<close>

fun blockingMapped :: "('a \<Rightarrow> 's \<Rightarrow> 'b \<times> 's) \<Rightarrow> 'a list \<Rightarrow> 's \<Rightarrow> 'b list \<times> 's" where
  "blockingMapped f [] s = ([], s)"
| "blockingMapped f (x # xs) s =
     (case f x s of (y, s1) \<Rightarrow>
        (case blockingMapped f xs s1 of (ys, s2) \<Rightarrow> (y # ys, s2)))"

text \<open>\<^verbatim>\<open>QList::front\<close> asserts that the list is not empty.\<close>

datatype error = EmptyList

definition front :: "'a list \<Rightarrow> error + 'a" where
  "front xs = (case xs of [] \<Rightarrow> Inl EmptyList | x # _ \<Rightarrow> Inr x)"

section \<open>The function objects\<close>

text \<open>
  \<^verbatim>\<open>AddModule::operator()\<close>: a registration whose exceptions are caught; either handler
  returns the invalid reference. The debug flag only selects what is printed.
\<close>

definition AddModule ::
  "'m ctkCmdLineModuleManager \<Rightarrow> bool \<Rightarrow> QString \<Rightarrow> 'm manager_object
    \<Rightarrow> ctkCmdLineModuleReference \<times> 'm manager_object" where
  "AddModule mgr debug moduleLocation M =
     (case call_registerModule mgr moduleLocation M of
        (Inr ref, M') \<Rightarrow> (ref, M')
      | (Inl CtkException, M') \<Rightarrow> (None, M')
      | (Inl UnknownException, M') \<Rightarrow> (None, M'))"

text \<open>\<^verbatim>\<open>RemoveModule::operator()\<close>: unregisters what the manager knows under the location.\<close>

definition RemoveModule ::
  "'m ctkCmdLineModuleManager \<Rightarrow> QString \<Rightarrow> 'm manager_object \<Rightarrow> bool \<times> 'm manager_object" where
  "RemoveModule mgr moduleLocation M =
     (case call_moduleReference mgr moduleLocation M of
        (ref, M1) \<Rightarrow>
          if ref \<noteq> None then (True, call_unregisterModule mgr ref M1)
          else (False, M1))"

section \<open>The private class\<close>

text \<open>
  The members of \<^verbatim>\<open>ctkCmdLineModuleDirectoryWatcherPrivate\<close>. The \<^verbatim>\<open>QHash\<close> from file
  names to references is an association list with one pair per key: \<^verbatim>\<open>operator[]\<close>
  assignment is \<^const>\<open>AList.update\<close>, \<^verbatim>\<open>remove\<close> is \<^const>\<open>AList.delete\<close>, \<^verbatim>\<open>keys()\<close> the
  list of first components. A \<^verbatim>\<open>QHash\<close> lists its keys in no particular order, so the
  statements below speak about the set of keys.
\<close>

record 'm ctkCmdLineModuleDirectoryWatcherPrivate =
  ModuleManager :: "'m manager_object"
  FileSystemWatcher :: QFileSystemWatcher
  MapFileNameToReference :: "(QString \<times> ctkCmdLineModuleReference) list"
  Debug :: bool

text \<open>The state the constructor leaves.\<close>

definition construct :: "'m manager_object \<Rightarrow> 'm ctkCmdLineModuleDirectoryWatcherPrivate" where
  "construct moduleManager =
     \<lparr>ModuleManager = moduleManager,
      FileSystemWatcher = \<lparr>watchedDirectories = [], watchedFiles = []\<rparr>,
      MapFileNameToReference = [],
      Debug = False\<rparr>"

definition setDebug ::
  "bool \<Rightarrow> 'm ctkCmdLineModuleDirectoryWatcherPrivate \<Rightarrow> 'm ctkCmdLineModuleDirectoryWatcherPrivate" where
  "setDebug debug d = d\<lparr>Debug := debug\<rparr>"

definition directories :: "'m ctkCmdLineModuleDirectoryWatcherPrivate \<Rightarrow> QStringList" where
  "directories d = watchedDirectories (FileSystemWatcher d)"

definition files :: "'m ctkCmdLineModuleDirectoryWatcherPrivate \<Rightarrow> QStringList" where
  "files d = watchedFiles (FileSystemWatcher d)"

definition keys :: "'m ctkCmdLineModuleDirectoryWatcherPrivate \<Rightarrow> QStringList" where
  "keys d = map fst (MapFileNameToReference d)"

definition updateWatchedPaths ::
  "filesystem \<Rightarrow> QStringList \<Rightarrow> QStringList \<Rightarrow> 'm ctkCmdLineModuleDirectoryWatcherPrivate
    \<Rightarrow> 'm ctkCmdLineModuleDirectoryWatcherPrivate" where
  "updateWatchedPaths fs dirs fls d =
     (let currentDirectories = directories d;
          currentFiles = files d;
          w0 = FileSystemWatcher d;
          w1 = (if length currentDirectories > 0 then removePaths currentDirectories w0 else w0);
          w2 = (if length currentFiles > 0 then removePaths currentFiles w1 else w1);
          w3 = (if length dirs > 0 then addPaths fs dirs w2 else w2);
          w4 = (if length fls > 0 then addPaths fs fls w3 else w3)
      in d\<lparr>FileSystemWatcher := w4\<rparr>)"

definition filterInvalidDirectories :: "filesystem \<Rightarrow> QStringList \<Rightarrow> QStringList" where
  "filterInvalidDirectories fs dirs =
     concat (map (\<lambda>path.
       if path \<noteq> [] \<and> trimmed path \<noteq> [] then
         (if dirExists fs path then [dirAbsolutePath fs path] else [])
       else []) dirs)"

definition extractCurrentlyWatchedFilenamesInDirectory ::
  "filesystem \<Rightarrow> 'm ctkCmdLineModuleDirectoryWatcherPrivate \<Rightarrow> QString \<Rightarrow> QStringList" where
  "extractCurrentlyWatchedFilenamesInDirectory fs d path =
     (if dirExists fs path then
        concat (map (\<lambda>fileName.
          if fileAbsolutePath fs fileName = dirAbsolutePath fs path
          then [fileAbsoluteFilePath fs fileName] else []) (keys d))
      else [])"

definition getExecutablesInDirectory :: "filesystem \<Rightarrow> QString \<Rightarrow> QStringList" where
  "getExecutablesInDirectory fs path =
     (if dirExists fs path then map (fileAbsoluteFilePath fs) (entryInfoList fs path) else [])"

text \<open>
  \<^verbatim>\<open>loadModules\<close>: the registrations, then the loop over the indices that stores every
  valid reference under its file name.
\<close>

definition loadModules ::
  "'m ctkCmdLineModuleManager \<Rightarrow> QStringList \<Rightarrow> 'm ctkCmdLineModuleDirectoryWatcherPrivate
    \<Rightarrow> ctkCmdLineModuleReference list \<times> 'm ctkCmdLineModuleDirectoryWatcherPrivate" where
  "loadModules mgr executables d =
     (case blockingMapped (AddModule mgr (Debug d)) executables (ModuleManager d) of
        (refs, M') \<Rightarrow>
          (refs,
           d\<lparr>ModuleManager := M',
             MapFileNameToReference :=
               fold (\<lambda>i m. if refs ! i \<noteq> None then AList.update (executables ! i) (refs ! i) m else m)
                 [0..<length executables] (MapFileNameToReference d)\<rparr>))"

text \<open>\<^verbatim>\<open>unloadModules\<close>: the removals at the manager, then every file name leaves the hash.\<close>

definition unloadModules ::
  "'m ctkCmdLineModuleManager \<Rightarrow> QStringList \<Rightarrow> 'm ctkCmdLineModuleDirectoryWatcherPrivate
    \<Rightarrow> 'm ctkCmdLineModuleDirectoryWatcherPrivate" where
  "unloadModules mgr executables d =
     (case blockingMapped (RemoveModule mgr) executables (ModuleManager d) of
        (removed, M') \<Rightarrow>
          d\<lparr>ModuleManager := M',
            MapFileNameToReference := fold AList.delete executables (MapFileNameToReference d)\<rparr>)"

text \<open>
  The two lists \<^verbatim>\<open>setModuleReferences\<close> builds. The first loop runs over the watched
  directories that are no longer requested, the second over the requested directories,
  with its two branches (a directory that is watched already, a new one).
\<close>

definition modulesToUnload ::
  "filesystem \<Rightarrow> 'm ctkCmdLineModuleDirectoryWatcherPrivate \<Rightarrow> QStringList \<Rightarrow> QStringList" where
  "modulesToUnload fs d dirs =
     concat (map (\<lambda>path.
       if path \<notin> set dirs then extractCurrentlyWatchedFilenamesInDirectory fs d path else [])
       (directories d))
     @ concat (map (\<lambda>path.
       if path \<in> set (directories d) then
         filter (\<lambda>executable. executable \<notin> set (getExecutablesInDirectory fs path))
           (extractCurrentlyWatchedFilenamesInDirectory fs d path)
       else []) dirs)"

definition modulesToLoad ::
  "filesystem \<Rightarrow> 'm ctkCmdLineModuleDirectoryWatcherPrivate \<Rightarrow> QStringList \<Rightarrow> QStringList" where
  "modulesToLoad fs d dirs =
     concat (map (\<lambda>path.
       if path \<in> set (directories d) then
         filter (\<lambda>executable. executable \<notin> set (extractCurrentlyWatchedFilenamesInDirectory fs d path))
           (getExecutablesInDirectory fs path)
       else getExecutablesInDirectory fs path) dirs)"

definition setModuleReferences ::
  "filesystem \<Rightarrow> 'm ctkCmdLineModuleManager \<Rightarrow> QStringList
    \<Rightarrow> 'm ctkCmdLineModuleDirectoryWatcherPrivate \<Rightarrow> 'm ctkCmdLineModuleDirectoryWatcherPrivate" where
  "setModuleReferences fs mgr dirs d =
     snd (loadModules mgr (modulesToLoad fs d dirs)
            (unloadModules mgr (modulesToUnload fs d dirs) d))"

definition updateModuleReferences ::
  "filesystem \<Rightarrow> 'm ctkCmdLineModuleManager \<Rightarrow> QString
    \<Rightarrow> 'm ctkCmdLineModuleDirectoryWatcherPrivate \<Rightarrow> 'm ctkCmdLineModuleDirectoryWatcherPrivate" where
  "updateModuleReferences fs mgr directory d =
     (let currentlyWatchedDirectories =
            (if directory \<notin> set (directories d) then directories d @ [directory]
             else directories d)
      in setModuleReferences fs mgr currentlyWatchedDirectories d)"

definition setDirectories ::
  "filesystem \<Rightarrow> 'm ctkCmdLineModuleManager \<Rightarrow> QStringList
    \<Rightarrow> 'm ctkCmdLineModuleDirectoryWatcherPrivate \<Rightarrow> 'm ctkCmdLineModuleDirectoryWatcherPrivate" where
  "setDirectories fs mgr dirs d =
     (let validDirectories = filterInvalidDirectories fs dirs;
          d1 = setModuleReferences fs mgr validDirectories d
      in updateWatchedPaths fs validDirectories (keys d1) d1)"

text \<open>
  \<^verbatim>\<open>onFileChanged\<close> takes the first reference of a one-element load; both branches on it
  only print.
\<close>

definition onFileChanged ::
  "'m ctkCmdLineModuleManager \<Rightarrow> QString \<Rightarrow> 'm ctkCmdLineModuleDirectoryWatcherPrivate
    \<Rightarrow> error + 'm ctkCmdLineModuleDirectoryWatcherPrivate" where
  "onFileChanged mgr path d =
     (case loadModules mgr [path] d of
        (refs, d') \<Rightarrow> (case front refs of Inl e \<Rightarrow> Inl e | Inr ref \<Rightarrow> Inr d'))"

definition onDirectoryChanged ::
  "filesystem \<Rightarrow> 'm ctkCmdLineModuleManager \<Rightarrow> QString
    \<Rightarrow> 'm ctkCmdLineModuleDirectoryWatcherPrivate \<Rightarrow> 'm ctkCmdLineModuleDirectoryWatcherPrivate" where
  "onDirectoryChanged fs mgr path d =
     (let validDirectories = filterInvalidDirectories fs [path]
      in if length validDirectories > 0 then updateModuleReferences fs mgr path d else d)"

section \<open>Sample collaborators\<close>

text \<open>
  Modelled from the spec: the module manager (\<^verbatim>\<open>ctkCmdLineModuleManager.cpp\<close> is not among
  the sources), after its contract in the spec: a registration gives a handle or fails, a
  lookup gives the handle of a location or none, unregistering removes the handle. This
  one keeps a registry from locations to handles, numbers the handles as it hands them
  out, returns the handle it has for a location that is registered already, and throws
  for the locations of the list \<open>rejected\<close>. It serves to run the model on concrete inputs;
  the statements below hold for every manager unless they name this one.
\<close>

definition sampleManager :: "QStringList \<Rightarrow> ((QString \<times> nat) list \<times> nat) ctkCmdLineModuleManager" where
  "sampleManager rejected =
     \<lparr>registerModule = (\<lambda>location (reg, next).
        if location \<in> set rejected then (Inl CtkException, (reg, next))
        else (case map_of reg location of
                Some h \<Rightarrow> (Inr (Some h), (reg, next))
              | None \<Rightarrow> (Inr (Some next), (AList.update location next reg, Suc next)))),
      moduleReference = (\<lambda>location (reg, next). map_of reg location),
      unregisterModule = (\<lambda>ref (reg, next). (filter (\<lambda>(l, h). Some h \<noteq> ref) reg, next))\<rparr>"

definition freshManager :: "((QString \<times> nat) list \<times> nat) manager_object" where
  "freshManager = \<lparr>Impl = ([], 0), History = []\<rparr>"

text \<open>
  A disk to run the model on, given as the list of its directories with the executable
  files of each, all by their absolute paths. The directory of a file name is the text
  before its last slash, whether the file exists or not.
\<close>

definition dirName :: "QString \<Rightarrow> QString" where
  "dirName f = rev (drop 1 (dropWhile (\<lambda>c. c \<noteq> CHR ''/'') (rev f)))"

definition sampleDisk :: "(QString \<times> QStringList) list \<Rightarrow> filesystem" where
  "sampleDisk tree =
     \<lparr>dirExists = (\<lambda>p. p \<in> set (map fst tree)),
      dirAbsolutePath = (\<lambda>p. p),
      entryInfoList = (\<lambda>p. case map_of tree p of Some fls \<Rightarrow> fls | None \<Rightarrow> []),
      fileAbsolutePath = dirName,
      fileAbsoluteFilePath = (\<lambda>f. f),
      fileExists = (\<lambda>f. f \<in> set (concat (map snd tree)))\<rparr>"

text \<open>
  A watcher that tracks \<^verbatim>\<open>/A/x\<close> under the handle 7, registered with the manager under the
  same handle.
\<close>

definition trackingX :: "((QString \<times> nat) list \<times> nat) ctkCmdLineModuleDirectoryWatcherPrivate" where
  "trackingX =
     \<lparr>ModuleManager = \<lparr>Impl = ([(''/A/x'', 7)], 8), History = []\<rparr>,
      FileSystemWatcher = \<lparr>watchedDirectories = [''/A''], watchedFiles = [''/A/x'']\<rparr>,
      MapFileNameToReference = [(''/A/x'', Some 7)],
      Debug = False\<rparr>"

text \<open>
  Two states in which the hash and the manager disagree about \<^verbatim>\<open>/A/x\<close>: the manager holds a
  reference the watcher does not track (a module registered by another client of the
  manager), and the watcher tracks a file the manager no longer knows (a module another
  client has unregistered).
\<close>

definition knownUntracked :: "((QString \<times> nat) list \<times> nat) ctkCmdLineModuleDirectoryWatcherPrivate" where
  "knownUntracked = construct \<lparr>Impl = ([(''/A/x'', 7)], 8), History = []\<rparr>"

definition trackedUnknown :: "((QString \<times> nat) list \<times> nat) ctkCmdLineModuleDirectoryWatcherPrivate" where
  "trackedUnknown = trackingX\<lparr>ModuleManager := \<lparr>Impl = ([], 8), History = []\<rparr>\<rparr>"

text \<open>
  Two directories on the sample disk: \<^verbatim>\<open>/A\<close> with \<^verbatim>\<open>x\<close> and \<^verbatim>\<open>y\<close>, \<^verbatim>\<open>/B\<close> with \<^verbatim>\<open>z\<close>; the same
  disk after \<^verbatim>\<open>/A/y\<close> has been removed; and after, besides, \<^verbatim>\<open>/B/w\<close> has appeared. The
  state \<open>watchingAB\<close> is what \<^verbatim>\<open>setDirectories\<close> makes of the first disk.
\<close>

definition diskAB :: filesystem where
  "diskAB = sampleDisk [(''/A'', [''/A/x'', ''/A/y'']), (''/B'', [''/B/z''])]"

definition diskAB_yRemoved :: filesystem where
  "diskAB_yRemoved = sampleDisk [(''/A'', [''/A/x'']), (''/B'', [''/B/z''])]"

definition diskAB_yRemoved_wAdded :: filesystem where
  "diskAB_yRemoved_wAdded = sampleDisk [(''/A'', [''/A/x'']), (''/B'', [''/B/z'', ''/B/w''])]"

definition watchingAB :: "((QString \<times> nat) list \<times> nat) ctkCmdLineModuleDirectoryWatcherPrivate" where
  "watchingAB = setDirectories diskAB (sampleManager []) [''/A'', ''/B''] (construct freshManager)"

text \<open>
  Two directories with one executable each, \<^verbatim>\<open>/A/a\<close> and \<^verbatim>\<open>/B/b\<close>; the state in which both
  are watched; and the disk after \<^verbatim>\<open>/A\<close> has been deleted with its file.
\<close>

definition diskOneEach :: filesystem where
  "diskOneEach = sampleDisk [(''/A'', [''/A/a'']), (''/B'', [''/B/b''])]"

definition diskOneEach_Adeleted :: filesystem where
  "diskOneEach_Adeleted = sampleDisk [(''/B'', [''/B/b''])]"

definition watchingOneEach :: "((QString \<times> nat) list \<times> nat) ctkCmdLineModuleDirectoryWatcherPrivate" where
  "watchingOneEach = setDirectories diskOneEach (sampleManager []) [''/A'', ''/B''] (construct freshManager)"

section \<open>Loading a batch\<close>

text \<open>One round of the loop of \<^verbatim>\<open>loadModules\<close>, on the pair of a file name and its reference.\<close>

definition storeValid ::
  "QString \<times> ctkCmdLineModuleReference \<Rightarrow> (QString \<times> ctkCmdLineModuleReference) list
    \<Rightarrow> (QString \<times> ctkCmdLineModuleReference) list" where
  "storeValid = (\<lambda>(x, r) m. if r \<noteq> None then AList.update x r m else m)"

lemma blockingMapped_Cons_fst:
  "fst (blockingMapped f (x # xs) s) = fst (f x s) # fst (blockingMapped f xs (snd (f x s)))"
  by (simp split: prod.splits)

lemma blockingMapped_Cons_snd:
  "snd (blockingMapped f (x # xs) s) = snd (blockingMapped f xs (snd (f x s)))"
  by (simp split: prod.splits)

lemma blockingMapped_length: "length (fst (blockingMapped f xs s)) = length xs"
  by (induction xs arbitrary: s) (simp_all add: blockingMapped_Cons_fst del: blockingMapped.simps(2))

lemma blockingMapped_append:
  "blockingMapped f (xs @ ys) s =
     (case blockingMapped f xs s of (rs, s1) \<Rightarrow>
        (case blockingMapped f ys s1 of (rs', s2) \<Rightarrow> (rs @ rs', s2)))"
  by (induction xs arbitrary: s) (simp_all split: prod.splits)

lemma blockingMapped_nth:
  "i < length xs \<Longrightarrow>
     fst (blockingMapped f xs s) ! i = fst (f (xs ! i) (snd (blockingMapped f (take i xs) s)))"
proof (induction xs arbitrary: i s)
  case Nil
  then show ?case by simp
next
  case (Cons x xs)
  show ?case
  proof (cases i)
    case 0
    then show ?thesis by (simp add: blockingMapped_Cons_fst del: blockingMapped.simps(2))
  next
    case (Suc j)
    with Cons.prems have "j < length xs" by simp
    from Cons.IH[OF this, of "snd (f x s)"] Suc show ?thesis
      by (simp add: blockingMapped_Cons_fst blockingMapped_Cons_snd del: blockingMapped.simps(2))
  qed
qed

lemma AddModule_result:
  "fst (AddModule mgr dbg loc M) =
     (case fst (registerModule mgr loc (Impl M)) of Inl e \<Rightarrow> None | Inr r \<Rightarrow> r)"
  by (simp add: AddModule_def call_registerModule_def split: prod.splits sum.splits exn.splits)

lemma AddModule_History:
  "History (snd (AddModule mgr dbg loc M)) = History M @ [RegisterModule loc]"
  by (simp add: AddModule_def call_registerModule_def split: prod.splits sum.splits exn.splits)

lemma blockingMapped_AddModule_History:
  "History (snd (blockingMapped (AddModule mgr dbg) xs M)) = History M @ map RegisterModule xs"
  by (induction xs arbitrary: M)
     (simp_all add: blockingMapped_Cons_snd AddModule_History del: blockingMapped.simps(2))

lemma zip_index:
  "length rs = length xs \<Longrightarrow> map (\<lambda>i. (xs ! i, rs ! i)) [0..<length xs] = zip xs rs"
  by (rule nth_equalityI) auto

lemma fold_index_zip:
  assumes "length rs = length xs"
  shows "fold (\<lambda>i m. if rs ! i \<noteq> None then AList.update (xs ! i) (rs ! i) m else m) [0..<length xs] m
       = fold storeValid (zip xs rs) m"
proof -
  have "fold storeValid (map (\<lambda>i. (xs ! i, rs ! i)) [0..<length xs]) m
      = fold (\<lambda>i m. if rs ! i \<noteq> None then AList.update (xs ! i) (rs ! i) m else m) [0..<length xs] m"
    by (simp add: fold_map comp_def storeValid_def)
  then show ?thesis using zip_index[OF assms] by simp
qed

lemma loadModules_refs:
  "fst (loadModules mgr xs d) = fst (blockingMapped (AddModule mgr (Debug d)) xs (ModuleManager d))"
  by (simp add: loadModules_def split: prod.splits)

lemma loadModules_length: "length (fst (loadModules mgr xs d)) = length xs"
  by (simp add: loadModules_refs blockingMapped_length)

lemma loadModules_map:
  "MapFileNameToReference (snd (loadModules mgr xs d)) =
     fold storeValid (zip xs (fst (loadModules mgr xs d))) (MapFileNameToReference d)"
proof -
  obtain refs M' where b: "blockingMapped (AddModule mgr (Debug d)) xs (ModuleManager d) = (refs, M')"
    by (cases "blockingMapped (AddModule mgr (Debug d)) xs (ModuleManager d)")
  from blockingMapped_length[of "AddModule mgr (Debug d)" xs "ModuleManager d"] b
  have "length refs = length xs" by simp
  from fold_index_zip[OF this] b show ?thesis by (simp add: loadModules_def)
qed

lemma loadModules_manager:
  "ModuleManager (snd (loadModules mgr xs d)) =
     snd (blockingMapped (AddModule mgr (Debug d)) xs (ModuleManager d))"
  by (simp add: loadModules_def split: prod.splits)

lemma loadModules_frame:
  "FileSystemWatcher (snd (loadModules mgr xs d)) = FileSystemWatcher d"
  "Debug (snd (loadModules mgr xs d)) = Debug d"
  by (simp_all add: loadModules_def split: prod.splits)

lemma storeValid_keys:
  "set (map fst (fold storeValid ps m)) = set (map fst m) \<union> {x. \<exists>r. (x, r) \<in> set ps \<and> r \<noteq> None}"
proof (induction ps arbitrary: m)
  case Nil
  show ?case by simp
next
  case (Cons a ps)
  obtain x r where a: "a = (x, r)" by (cases a)
  show ?case
  proof (cases r)
    case None
    with a Cons.IH[of m] show ?thesis by (auto simp: storeValid_def)
  next
    case (Some h)
    have "set (map fst (AList.update x (Some h) m)) = insert x (set (map fst m))"
      using AList.dom_update[of x "Some h" m] by simp
    with a Some Cons.IH[of "AList.update x (Some h) m"] show ?thesis
      by (auto simp: storeValid_def)
  qed
qed

lemma storeValid_unchanged:
  "(\<And>r. (p, r) \<in> set ps \<Longrightarrow> r = None) \<Longrightarrow> map_of (fold storeValid ps m) p = map_of m p"
proof (induction ps arbitrary: m)
  case Nil
  show ?case by simp
next
  case (Cons a ps)
  obtain x r where a: "a = (x, r)" by (cases a)
  have ih: "map_of (fold storeValid ps m') p = map_of m' p" for m'
    using Cons.IH[of m'] Cons.prems by simp
  show ?case
  proof (cases "r = None")
    case True
    with a ih show ?thesis by (simp add: storeValid_def)
  next
    case False
    with a Cons.prems[of r] have "x \<noteq> p" by auto
    with a False ih show ?thesis by (simp add: storeValid_def AList.update_conv')
  qed
qed

lemma storeValid_last:
  "(\<And>r. (p, r) \<in> set qs \<Longrightarrow> r = None) \<Longrightarrow>
     map_of (fold storeValid (ps @ (p, Some h) # qs) m) p = Some (Some h)"
  by (simp add: storeValid_unchanged) (simp add: storeValid_def AList.update_conv')

section \<open>Claims about loading\<close>

text \<open>
  C10. \<^verbatim>\<open>loadModules\<close> returns one result for every input path, a reference or the invalid
  reference; so the result of a non-empty input is not empty, and \<^verbatim>\<open>onFileChanged\<close>, which
  takes the first element of the result of loading one path, never reaches the error of an
  empty list: it always returns the state the load left.
\<close>

theorem loadModules_one_result_per_path:
  "length (fst (loadModules mgr executables d)) = length executables
   \<and> (executables \<noteq> [] \<longrightarrow> fst (loadModules mgr executables d) \<noteq> [])
   \<and> front (fst (loadModules mgr [path] d)) \<noteq> Inl EmptyList
   \<and> onFileChanged mgr path d = Inr (snd (loadModules mgr [path] d))"
proof -
  have len: "length (fst (loadModules mgr xs d)) = length xs" for xs
    by (rule loadModules_length)
  have ne: "executables \<noteq> [] \<longrightarrow> fst (loadModules mgr executables d) \<noteq> []"
    using len[of executables] by auto
  obtain r where one: "fst (loadModules mgr [path] d) = [r]"
    using len[of "[path]"] by (cases "fst (loadModules mgr [path] d)") auto
  then have fr: "front (fst (loadModules mgr [path] d)) = Inr r"
    by (simp add: front_def)
  have "onFileChanged mgr path d = Inr (snd (loadModules mgr [path] d))"
    using fr by (cases "loadModules mgr [path] d") (simp add: onFileChanged_def)
  with len[of executables] ne fr show ?thesis by simp
qed

text \<open>
  C10, on a batch of two files, one of which the manager rejects, and on the notification
  for the rejected file.
\<close>

theorem loadModules_one_result_per_path_witness:
  "[''/A/x'', ''/A/y''] \<noteq> []
   \<and> length (fst (loadModules (sampleManager [''/A/y'']) [''/A/x'', ''/A/y''] (construct freshManager))) = 2
   \<and> fst (loadModules (sampleManager [''/A/y'']) [''/A/x'', ''/A/y''] (construct freshManager)) \<noteq> []
   \<and> onFileChanged (sampleManager [''/A/y'']) ''/A/y'' (construct freshManager)
       = Inr (snd (loadModules (sampleManager [''/A/y'']) [''/A/y''] (construct freshManager)))"
  using loadModules_one_result_per_path
    [of "sampleManager [''/A/y'']" "[''/A/x'', ''/A/y'']" "construct freshManager" "''/A/y''"]
  by simp

text \<open>
  C9. Every key of the hash before a call of \<^verbatim>\<open>loadModules\<close> is a key after it; and a path
  whose registrations in the batch all failed (or that is not in the batch) has the entry
  it had before, or none as before.
\<close>

theorem loadModules_keeps_entries:
  "(\<forall>k \<in> set (keys d). k \<in> set (keys (snd (loadModules mgr executables d))))
   \<and> ((\<forall>i < length executables.
          executables ! i = p \<longrightarrow> fst (loadModules mgr executables d) ! i = None)
        \<longrightarrow> map_of (MapFileNameToReference (snd (loadModules mgr executables d))) p
            = map_of (MapFileNameToReference d) p)"
proof -
  let ?refs = "fst (loadModules mgr executables d)"
  have len: "length ?refs = length executables" by (rule loadModules_length)
  have k: "\<forall>k \<in> set (keys d). k \<in> set (keys (snd (loadModules mgr executables d)))"
    unfolding keys_def loadModules_map storeValid_keys by blast
  have u: "map_of (MapFileNameToReference (snd (loadModules mgr executables d))) p
            = map_of (MapFileNameToReference d) p"
    if h: "\<forall>i < length executables. executables ! i = p \<longrightarrow> ?refs ! i = None"
  proof -
    have "r = None" if "(p, r) \<in> set (zip executables ?refs)" for r
      using that h len by (auto simp: in_set_zip)
    then show ?thesis unfolding loadModules_map by (rule storeValid_unchanged)
  qed
  from k u show ?thesis by blast
qed

text \<open>
  C9, on the tracked file \<^verbatim>\<open>/A/x\<close>, loaded again in a batch in which its registration
  throws: it keeps the handle 7.
\<close>

theorem loadModules_keeps_entries_witness:
  "''/A/x'' \<in> set (keys trackingX)
   \<and> fst (loadModules (sampleManager [''/A/x'']) [''/A/x'', ''/A/z''] trackingX) = [None, Some 8]
   \<and> ''/A/x'' \<in> set (keys (snd (loadModules (sampleManager [''/A/x'']) [''/A/x'', ''/A/z''] trackingX)))
   \<and> map_of (MapFileNameToReference
        (snd (loadModules (sampleManager [''/A/x'']) [''/A/x'', ''/A/z''] trackingX))) ''/A/x''
       = Some (Some 7)"
proof -
  have refs: "fst (loadModules (sampleManager [''/A/x'']) [''/A/x'', ''/A/z''] trackingX) = [None, Some 8]"
    by code_simp
  have k: "''/A/x'' \<in> set (keys trackingX)" by code_simp
  have old: "map_of (MapFileNameToReference trackingX) ''/A/x'' = Some (Some 7)" by code_simp
  have fails: "\<forall>i < length [''/A/x'', ''/A/z''].
      [''/A/x'', ''/A/z''] ! i = ''/A/x''
        \<longrightarrow> fst (loadModules (sampleManager [''/A/x'']) [''/A/x'', ''/A/z''] trackingX) ! i = None"
    unfolding refs by (simp add: less_Suc_eq)
  from loadModules_keeps_entries
    [of trackingX "sampleManager [''/A/x'']" "[''/A/x'', ''/A/z'']" "''/A/x''"] k fails old refs
  show ?thesis by simp
qed

lemma zip_later:
  assumes "i < length xs" "length rs = length xs"
  shows "zip xs rs = zip (take i xs) (take i rs) @ (xs ! i, rs ! i) # zip (drop (Suc i) xs) (drop (Suc i) rs)"
proof -
  have "zip xs rs = zip (take i xs @ xs ! i # drop (Suc i) xs) (take i rs @ rs ! i # drop (Suc i) rs)"
    using assms by (simp add: id_take_nth_drop[symmetric])
  also have "\<dots> = zip (take i xs) (take i rs) @ zip (xs ! i # drop (Suc i) xs) (rs ! i # drop (Suc i) rs)"
    using assms by (intro zip_append) simp
  finally show ?thesis by simp
qed

lemma storeValid_nth:
  assumes i: "i < length xs" and len: "length rs = length xs" and v: "rs ! i = Some h"
    and later: "\<And>j. i < j \<Longrightarrow> j < length xs \<Longrightarrow> xs ! j = xs ! i \<Longrightarrow> rs ! j = None"
  shows "map_of (fold storeValid (zip xs rs) m) (xs ! i) = Some (Some h)"
proof -
  have q: "r = None" if "(xs ! i, r) \<in> set (zip (drop (Suc i) xs) (drop (Suc i) rs))" for r
  proof -
    from that obtain k where k: "k < length (drop (Suc i) xs)" "drop (Suc i) xs ! k = xs ! i"
      "drop (Suc i) rs ! k = r"
      by (auto simp: in_set_zip)
    with len i have "xs ! (Suc i + k) = xs ! i" "rs ! (Suc i + k) = r" "Suc i + k < length xs"
      by auto
    with later[of "Suc i + k"] show ?thesis by simp
  qed
  show ?thesis
    unfolding zip_later[OF i len] v by (rule storeValid_last) (rule q)
qed

text \<open>
  C6. In a batch passed to \<^verbatim>\<open>loadModules\<close> every path is attempted once, in the order of
  the input, whatever the earlier attempts gave (the history of the manager grows by one
  registration per path). The result at each index is what the manager answered to that
  attempt alone: an exception or an invalid reference gives the invalid reference for that
  path, and nothing else. The list of results has the length and the order of the input.
  Only valid references reach the hash: its keys are the old keys and the paths with a
  valid result; a path holds the reference of its last valid result, and a path without a
  valid result holds what it held before.
\<close>

theorem loadModules_isolation:
  "length (fst (loadModules mgr executables d)) = length executables
   \<and> History (ModuleManager (snd (loadModules mgr executables d)))
       = History (ModuleManager d) @ map RegisterModule executables
   \<and> (\<forall>i < length executables.
        fst (loadModules mgr executables d) ! i =
          (case fst (registerModule mgr (executables ! i)
                      (Impl (snd (blockingMapped (AddModule mgr (Debug d)) (take i executables)
                                   (ModuleManager d))))) of
             Inl e \<Rightarrow> None
           | Inr ref \<Rightarrow> ref))
   \<and> set (keys (snd (loadModules mgr executables d)))
       = set (keys d) \<union> {executables ! i | i. i < length executables
                                           \<and> fst (loadModules mgr executables d) ! i \<noteq> None}
   \<and> (\<forall>i < length executables. \<forall>h.
        fst (loadModules mgr executables d) ! i = Some h
        \<and> (\<forall>j < length executables. i < j \<and> executables ! j = executables ! i
              \<longrightarrow> fst (loadModules mgr executables d) ! j = None)
        \<longrightarrow> map_of (MapFileNameToReference (snd (loadModules mgr executables d))) (executables ! i)
            = Some (Some h))
   \<and> (\<forall>p. (\<forall>i < length executables.
              executables ! i = p \<longrightarrow> fst (loadModules mgr executables d) ! i = None)
        \<longrightarrow> map_of (MapFileNameToReference (snd (loadModules mgr executables d))) p
            = map_of (MapFileNameToReference d) p)"
proof -
  let ?refs = "fst (loadModules mgr executables d)"
  let ?d' = "snd (loadModules mgr executables d)"
  have len: "length ?refs = length executables" by (rule loadModules_length)
  have hist: "History (ModuleManager ?d') = History (ModuleManager d) @ map RegisterModule executables"
    by (simp add: loadModules_manager blockingMapped_AddModule_History)
  have own: "\<forall>i < length executables.
        ?refs ! i =
          (case fst (registerModule mgr (executables ! i)
                      (Impl (snd (blockingMapped (AddModule mgr (Debug d)) (take i executables)
                                   (ModuleManager d))))) of
             Inl e \<Rightarrow> None
           | Inr ref \<Rightarrow> ref)"
    by (simp add: loadModules_refs blockingMapped_nth AddModule_result)
  have ks: "set (keys ?d') = set (keys d) \<union> {executables ! i | i. i < length executables \<and> ?refs ! i \<noteq> None}"
  proof -
    have "{x. \<exists>r. (x, r) \<in> set (zip executables ?refs) \<and> r \<noteq> None}
        = {executables ! i | i. i < length executables \<and> ?refs ! i \<noteq> None}"
      using len by (auto simp: in_set_zip)
    then show ?thesis unfolding keys_def loadModules_map storeValid_keys by simp
  qed
  have stored: "\<forall>i < length executables. \<forall>h.
        ?refs ! i = Some h
        \<and> (\<forall>j < length executables. i < j \<and> executables ! j = executables ! i \<longrightarrow> ?refs ! j = None)
        \<longrightarrow> map_of (MapFileNameToReference ?d') (executables ! i) = Some (Some h)"
  proof (intro allI impI)
    fix i h
    assume i: "i < length executables"
      and h: "?refs ! i = Some h
        \<and> (\<forall>j < length executables. i < j \<and> executables ! j = executables ! i \<longrightarrow> ?refs ! j = None)"
    show "map_of (MapFileNameToReference ?d') (executables ! i) = Some (Some h)"
      unfolding loadModules_map
      by (rule storeValid_nth[OF i len]) (use h in auto)
  qed
  have kept: "\<forall>p. (\<forall>i < length executables. executables ! i = p \<longrightarrow> ?refs ! i = None)
        \<longrightarrow> map_of (MapFileNameToReference ?d') p = map_of (MapFileNameToReference d) p"
  proof (intro allI impI)
    fix p
    assume h: "\<forall>i < length executables. executables ! i = p \<longrightarrow> ?refs ! i = None"
    have "r = None" if "(p, r) \<in> set (zip executables ?refs)" for r
      using that h len by (auto simp: in_set_zip)
    then show "map_of (MapFileNameToReference ?d') p = map_of (MapFileNameToReference d) p"
      unfolding loadModules_map by (rule storeValid_unchanged)
  qed
  from len hist own ks stored kept show ?thesis by blast
qed

text \<open>
  C6, on a batch of three files whose second registration throws: the first and the third
  are registered all the same, the second gets the invalid reference and no entry.
\<close>

theorem loadModules_isolation_witness:
  "fst (loadModules (sampleManager [''/A/y'']) [''/A/x'', ''/A/y'', ''/A/z''] (construct freshManager))
     = [Some 0, None, Some 1]
   \<and> fst (registerModule (sampleManager [''/A/y'']) ''/A/y'' ([(''/A/x'', 0)], 1)) = Inl CtkException
   \<and> map_of (MapFileNameToReference (snd (loadModules (sampleManager [''/A/y''])
        [''/A/x'', ''/A/y'', ''/A/z''] (construct freshManager)))) ''/A/z'' = Some (Some 1)
   \<and> map_of (MapFileNameToReference (snd (loadModules (sampleManager [''/A/y''])
        [''/A/x'', ''/A/y'', ''/A/z''] (construct freshManager)))) ''/A/y'' = None"
proof -
  let ?xs = "[''/A/x'', ''/A/y'', ''/A/z'']"
  let ?L = "loadModules (sampleManager [''/A/y'']) ?xs (construct freshManager)"
  have refs: "fst ?L = [Some 0, None, Some 1]" by code_simp
  have thrown: "fst (registerModule (sampleManager [''/A/y'']) ''/A/y'' ([(''/A/x'', 0)], 1)) = Inl CtkException"
    by code_simp
  have empty: "map_of (MapFileNameToReference (construct freshManager)) ''/A/y'' = None"
    by code_simp
  note t = loadModules_isolation[of "sampleManager [''/A/y'']" ?xs "construct freshManager"]
  have z: "map_of (MapFileNameToReference (snd ?L)) ''/A/z'' = Some (Some 1)"
  proof -
    from t have "\<forall>i < length ?xs. \<forall>h.
        fst ?L ! i = Some h
        \<and> (\<forall>j < length ?xs. i < j \<and> ?xs ! j = ?xs ! i \<longrightarrow> fst ?L ! j = None)
        \<longrightarrow> map_of (MapFileNameToReference (snd ?L)) (?xs ! i) = Some (Some h)"
      by blast
    from this[rule_format, of 2 1] show ?thesis unfolding refs by simp
  qed
  have y: "map_of (MapFileNameToReference (snd ?L)) ''/A/y'' = None"
  proof -
    from t have "\<forall>p. (\<forall>i < length ?xs. ?xs ! i = p \<longrightarrow> fst ?L ! i = None)
        \<longrightarrow> map_of (MapFileNameToReference (snd ?L)) p
            = map_of (MapFileNameToReference (construct freshManager)) p"
      by blast
    then have imp: "(\<forall>i < length ?xs. ?xs ! i = ''/A/y'' \<longrightarrow> fst ?L ! i = None)
        \<longrightarrow> map_of (MapFileNameToReference (snd ?L)) ''/A/y''
            = map_of (MapFileNameToReference (construct freshManager)) ''/A/y''"
      by (rule spec)
    have "\<forall>i < length ?xs. ?xs ! i = ''/A/y'' \<longrightarrow> fst ?L ! i = None"
      unfolding refs by (auto simp: less_Suc_eq)
    with imp empty show ?thesis by simp
  qed
  from refs thrown z y show ?thesis by simp
qed

section \<open>Claims about the change notifications\<close>

text \<open>
  C1, as amended. A file-changed notification dispatches the load of that one path (one
  registration call on the manager). When the registration returns a valid reference, the
  entry of the path is assigned that reference, whether the path had an entry or not; when
  it fails (an exception or an invalid reference), the hash is left as it was, so an entry
  the path had stays with its old reference.
\<close>

theorem onFileChanged_reload:
  "onFileChanged mgr path d = Inr (snd (loadModules mgr [path] d))
   \<and> History (ModuleManager (snd (loadModules mgr [path] d)))
       = History (ModuleManager d) @ [RegisterModule path]
   \<and> (\<forall>h. fst (registerModule mgr path (Impl (ModuleManager d))) = Inr (Some h)
        \<longrightarrow> MapFileNameToReference (snd (loadModules mgr [path] d))
            = AList.update path (Some h) (MapFileNameToReference d))
   \<and> ((\<forall>h. fst (registerModule mgr path (Impl (ModuleManager d))) \<noteq> Inr (Some h))
        \<longrightarrow> MapFileNameToReference (snd (loadModules mgr [path] d)) = MapFileNameToReference d)"
proof -
  let ?r = "fst (registerModule mgr path (Impl (ModuleManager d)))"
  obtain ref where one: "fst (loadModules mgr [path] d) = [ref]"
    using loadModules_length[of mgr "[path]" d] by (cases "fst (loadModules mgr [path] d)") auto
  have ref: "ref = (case ?r of Inl e \<Rightarrow> None | Inr r \<Rightarrow> r)"
    using one by (simp add: loadModules_refs blockingMapped_Cons_fst AddModule_result
        del: blockingMapped.simps(2))
  have ev: "onFileChanged mgr path d = Inr (snd (loadModules mgr [path] d))"
    using one by (cases "loadModules mgr [path] d") (simp add: onFileChanged_def front_def)
  have hist: "History (ModuleManager (snd (loadModules mgr [path] d)))
       = History (ModuleManager d) @ [RegisterModule path]"
    using blockingMapped_AddModule_History[of mgr "Debug d" "[path]" "ModuleManager d"]
    by (simp add: loadModules_manager del: blockingMapped.simps)
  have m: "MapFileNameToReference (snd (loadModules mgr [path] d))
      = (if ref \<noteq> None then AList.update path ref (MapFileNameToReference d)
         else MapFileNameToReference d)"
    unfolding loadModules_map one by (simp add: storeValid_def)
  have ok: "\<forall>h. ?r = Inr (Some h)
        \<longrightarrow> MapFileNameToReference (snd (loadModules mgr [path] d))
            = AList.update path (Some h) (MapFileNameToReference d)"
    using m ref by simp
  have ko: "(\<forall>h. ?r \<noteq> Inr (Some h))
        \<longrightarrow> MapFileNameToReference (snd (loadModules mgr [path] d)) = MapFileNameToReference d"
  proof
    assume "\<forall>h. ?r \<noteq> Inr (Some h)"
    then have "ref = None" using ref by (cases ?r) auto
    with m show "MapFileNameToReference (snd (loadModules mgr [path] d)) = MapFileNameToReference d"
      by simp
  qed
  from ev hist ok ko show ?thesis by blast
qed

text \<open>
  C1, as stated, fails: \<^verbatim>\<open>/A/x\<close> is tracked under the handle 7, its new registration throws,
  and after the notification it is still tracked under the handle 7.
\<close>

theorem onFileChanged_untracks_on_failure_counterexample:
  "fst (loadModules (sampleManager [''/A/x'']) [''/A/x''] trackingX) = [None]
   \<and> onFileChanged (sampleManager [''/A/x'']) ''/A/x'' trackingX
       = Inr (trackingX\<lparr>ModuleManager :=
               \<lparr>Impl = ([(''/A/x'', 7)], 8), History = [RegisterModule ''/A/x'']\<rparr>\<rparr>)
   \<and> map_of (MapFileNameToReference
        (snd (loadModules (sampleManager [''/A/x'']) [''/A/x''] trackingX))) ''/A/x'' = Some (Some 7)"
  by code_simp

text \<open>C1, as amended, on the tracked file \<^verbatim>\<open>/A/x\<close>: a registration that succeeds, one that throws.\<close>

theorem onFileChanged_reload_witness:
  "fst (registerModule (sampleManager []) ''/A/x'' (Impl (ModuleManager trackingX))) = Inr (Some 7)
   \<and> (\<forall>h. fst (registerModule (sampleManager [''/A/x'']) ''/A/x'' (Impl (ModuleManager trackingX)))
            \<noteq> Inr (Some h))
   \<and> MapFileNameToReference (snd (loadModules (sampleManager []) [''/A/x''] trackingX))
       = AList.update ''/A/x'' (Some 7) (MapFileNameToReference trackingX)
   \<and> MapFileNameToReference (snd (loadModules (sampleManager [''/A/x'']) [''/A/x''] trackingX))
       = MapFileNameToReference trackingX"
proof -
  have ok: "fst (registerModule (sampleManager []) ''/A/x'' (Impl (ModuleManager trackingX))) = Inr (Some 7)"
    by (simp add: sampleManager_def trackingX_def)
  have ko: "\<forall>h. fst (registerModule (sampleManager [''/A/x'']) ''/A/x'' (Impl (ModuleManager trackingX)))
            \<noteq> Inr (Some h)"
    by (simp add: sampleManager_def trackingX_def)
  from onFileChanged_reload[of "sampleManager []" "''/A/x''" trackingX] ok
    onFileChanged_reload[of "sampleManager [''/A/x'']" "''/A/x''" trackingX] ko
  show ?thesis by blast
qed

section \<open>Unloading a batch\<close>

lemma blockingMapped_take_Suc:
  assumes "i < length xs"
  shows "snd (blockingMapped f (take (Suc i) xs) s)
       = snd (f (xs ! i) (snd (blockingMapped f (take i xs) s)))"
proof -
  have "take (Suc i) xs = take i xs @ [xs ! i]"
    using assms by (rule take_Suc_conv_app_nth)
  then show ?thesis
    by (simp add: blockingMapped_append split: prod.splits)
qed

lemma RemoveModule_unknown:
  "moduleReference mgr p (Impl M) = None \<Longrightarrow>
     RemoveModule mgr p M = (False, M\<lparr>History := History M @ [ModuleReference p]\<rparr>)"
  by (simp add: RemoveModule_def call_moduleReference_def)

lemma RemoveModule_known:
  "moduleReference mgr p (Impl M) = Some h \<Longrightarrow>
     RemoveModule mgr p M =
       (True, \<lparr>Impl = unregisterModule mgr (Some h) (Impl M),
               History = History M @ [ModuleReference p, UnregisterModule (Some h)]\<rparr>)"
  by (simp add: RemoveModule_def call_moduleReference_def call_unregisterModule_def)

lemma unloadModules_manager:
  "ModuleManager (unloadModules mgr xs d) = snd (blockingMapped (RemoveModule mgr) xs (ModuleManager d))"
  by (simp add: unloadModules_def split: prod.splits)

lemma unloadModules_map:
  "MapFileNameToReference (unloadModules mgr xs d) = fold AList.delete xs (MapFileNameToReference d)"
  by (simp add: unloadModules_def split: prod.splits)

lemma unloadModules_frame:
  "FileSystemWatcher (unloadModules mgr xs d) = FileSystemWatcher d"
  "Debug (unloadModules mgr xs d) = Debug d"
  by (simp_all add: unloadModules_def split: prod.splits)

lemma map_of_fold_delete:
  "map_of (fold AList.delete xs m) p = (if p \<in> set xs then None else map_of m p)"
  by (induction xs arbitrary: m) (auto simp: AList.delete_conv')

lemma keys_fold_delete:
  "set (map fst (fold AList.delete xs m)) = set (map fst m) - set xs"
proof (induction xs arbitrary: m)
  case Nil
  show ?case by simp
next
  case (Cons x xs)
  have "set (map fst (AList.delete x m)) = set (map fst m) - {x}"
    by (simp add: AList.delete_keys)
  with Cons.IH[of "AList.delete x m"] show ?case by auto
qed

text \<open>
  C7, as amended. \<^verbatim>\<open>unloadModules\<close> asks the manager, for each path of the batch in turn,
  for the reference it holds under that path. When the manager holds one, that reference is
  unregistered; when it holds none, nothing more is called for that path. Whether the hash
  has an entry for the path plays no part in this. After the batch, no path of the batch is
  a key of the hash, whatever the manager answered, and every other path has the entry it
  had. Here \<open>M i\<close> is the manager as the first \<open>i\<close> paths of the batch have left it.
\<close>

theorem unloadModules_effect:
  "(let M = (\<lambda>i. snd (blockingMapped (RemoveModule mgr) (take i executables) (ModuleManager d)))
    in ModuleManager (unloadModules mgr executables d) = M (length executables)
       \<and> M 0 = ModuleManager d
       \<and> (\<forall>i < length executables.
            (moduleReference mgr (executables ! i) (Impl (M i)) = None
               \<longrightarrow> M (Suc i) = (M i)\<lparr>History := History (M i) @ [ModuleReference (executables ! i)]\<rparr>)
          \<and> (\<forall>h. moduleReference mgr (executables ! i) (Impl (M i)) = Some h
               \<longrightarrow> M (Suc i) =
                     \<lparr>Impl = unregisterModule mgr (Some h) (Impl (M i)),
                      History = History (M i)
                        @ [ModuleReference (executables ! i), UnregisterModule (Some h)]\<rparr>)))
   \<and> (\<forall>p \<in> set executables. p \<notin> set (keys (unloadModules mgr executables d)))
   \<and> (\<forall>p. p \<notin> set executables
        \<longrightarrow> map_of (MapFileNameToReference (unloadModules mgr executables d)) p
            = map_of (MapFileNameToReference d) p)"
proof -
  let ?M = "\<lambda>i. snd (blockingMapped (RemoveModule mgr) (take i executables) (ModuleManager d))"
  have final: "ModuleManager (unloadModules mgr executables d) = ?M (length executables)"
    by (simp add: unloadModules_manager)
  have start: "?M 0 = ModuleManager d" by simp
  have step: "\<forall>i < length executables.
            (moduleReference mgr (executables ! i) (Impl (?M i)) = None
               \<longrightarrow> ?M (Suc i) = (?M i)\<lparr>History := History (?M i) @ [ModuleReference (executables ! i)]\<rparr>)
          \<and> (\<forall>h. moduleReference mgr (executables ! i) (Impl (?M i)) = Some h
               \<longrightarrow> ?M (Suc i) =
                     \<lparr>Impl = unregisterModule mgr (Some h) (Impl (?M i)),
                      History = History (?M i)
                        @ [ModuleReference (executables ! i), UnregisterModule (Some h)]\<rparr>)"
  proof (intro allI impI conjI)
    fix i
    assume i: "i < length executables"
      and n: "moduleReference mgr (executables ! i) (Impl (?M i)) = None"
    show "?M (Suc i) = (?M i)\<lparr>History := History (?M i) @ [ModuleReference (executables ! i)]\<rparr>"
      unfolding blockingMapped_take_Suc[OF i] RemoveModule_unknown[OF n] by simp
  next
    fix i h
    assume i: "i < length executables"
      and k: "moduleReference mgr (executables ! i) (Impl (?M i)) = Some h"
    show "?M (Suc i) =
            \<lparr>Impl = unregisterModule mgr (Some h) (Impl (?M i)),
             History = History (?M i) @ [ModuleReference (executables ! i), UnregisterModule (Some h)]\<rparr>"
      unfolding blockingMapped_take_Suc[OF i] RemoveModule_known[OF k] by simp
  qed
  have gone: "\<forall>p \<in> set executables. p \<notin> set (keys (unloadModules mgr executables d))"
    unfolding keys_def unloadModules_map keys_fold_delete by simp
  have rest: "\<forall>p. p \<notin> set executables
        \<longrightarrow> map_of (MapFileNameToReference (unloadModules mgr executables d)) p
            = map_of (MapFileNameToReference d) p"
    by (simp add: unloadModules_map map_of_fold_delete)
  from final start step gone rest show ?thesis unfolding Let_def by blast
qed

text \<open>
  C7, as stated, fails in both directions. A path without an entry in the hash that the
  manager knows is unregistered at the manager; and a path with an entry that the manager
  does not know causes no unregister call (its entry is removed all the same).
\<close>

theorem unloadModules_by_hash_entry_counterexample:
  "''/A/x'' \<notin> set (keys knownUntracked)
   \<and> History (ModuleManager (unloadModules (sampleManager []) [''/A/x''] knownUntracked))
       = [ModuleReference ''/A/x'', UnregisterModule (Some 7)]
   \<and> ''/A/x'' \<in> set (keys trackedUnknown)
   \<and> History (ModuleManager (unloadModules (sampleManager []) [''/A/x''] trackedUnknown))
       = [ModuleReference ''/A/x'']
   \<and> keys (unloadModules (sampleManager []) [''/A/x''] trackedUnknown) = []"
  by code_simp

text \<open>
  C7, as amended, on a batch of the tracked and registered \<^verbatim>\<open>/A/x\<close> and of \<^verbatim>\<open>/A/q\<close>, which
  nobody knows: the first is looked up and unregistered, the second only looked up, and
  neither is a key afterwards.
\<close>

theorem unloadModules_effect_witness:
  "moduleReference (sampleManager []) ''/A/x'' (Impl (ModuleManager trackingX)) = Some 7
   \<and> snd (blockingMapped (RemoveModule (sampleManager [])) (take (Suc 0) [''/A/x'', ''/A/q''])
            (ModuleManager trackingX))
       = \<lparr>Impl = ([], 8), History = [ModuleReference ''/A/x'', UnregisterModule (Some 7)]\<rparr>
   \<and> moduleReference (sampleManager []) ''/A/q'' ([], 8) = None
   \<and> ModuleManager (unloadModules (sampleManager []) [''/A/x'', ''/A/q''] trackingX)
       = \<lparr>Impl = ([], 8),
          History = [ModuleReference ''/A/x'', UnregisterModule (Some 7), ModuleReference ''/A/q'']\<rparr>
   \<and> ''/A/x'' \<notin> set (keys (unloadModules (sampleManager []) [''/A/x'', ''/A/q''] trackingX))"
proof -
  let ?xs = "[''/A/x'', ''/A/q'']"
  let ?M = "\<lambda>i. snd (blockingMapped (RemoveModule (sampleManager [])) (take i ?xs)
                       (ModuleManager trackingX))"
  note t = unloadModules_effect[of "sampleManager []" ?xs trackingX, unfolded Let_def]
  note fin = t[THEN conjunct1, THEN conjunct1]
  note step = t[THEN conjunct1, THEN conjunct2, THEN conjunct2]
  note gone = t[THEN conjunct2, THEN conjunct1]
  have k0: "moduleReference (sampleManager []) ''/A/x'' (Impl (ModuleManager trackingX)) = Some 7"
    by (simp add: sampleManager_def trackingX_def)
  have i0: "0 < length ?xs" and i1: "Suc 0 < length ?xs" by simp_all
  have k0': "moduleReference (sampleManager []) (?xs ! 0) (Impl (?M 0)) = Some 7"
    using k0 by simp
  have m1: "?M (Suc 0) = \<lparr>Impl = ([], 8), History = [ModuleReference ''/A/x'', UnregisterModule (Some 7)]\<rparr>"
    using step[THEN spec, THEN mp, OF i0, THEN conjunct2, THEN spec, THEN mp, OF k0']
    by (simp add: sampleManager_def trackingX_def)
  have k1: "moduleReference (sampleManager []) ''/A/q'' ([], 8) = None"
    by (simp add: sampleManager_def)
  have k1': "moduleReference (sampleManager []) (?xs ! Suc 0) (Impl (?M (Suc 0))) = None"
    unfolding m1 using k1 by simp
  have m2: "?M (Suc (Suc 0)) = \<lparr>Impl = ([], 8),
          History = [ModuleReference ''/A/x'', UnregisterModule (Some 7), ModuleReference ''/A/q'']\<rparr>"
    unfolding step[THEN spec, THEN mp, OF i1, THEN conjunct1, THEN mp, OF k1'] m1 by simp
  have fin': "ModuleManager (unloadModules (sampleManager []) ?xs trackingX) = ?M (Suc (Suc 0))"
    using fin by simp
  have gone': "''/A/x'' \<notin> set (keys (unloadModules (sampleManager []) ?xs trackingX))"
    using gone by simp
  show ?thesis
    unfolding fin' m2 using k0 m1 k1 gone' by simp
qed

section \<open>What the notifications leave untouched\<close>

text \<open>
  Neither \<^verbatim>\<open>setModuleReferences\<close> nor the handler of a directory notification touches the
  \<^verbatim>\<open>QFileSystemWatcher\<close>; only \<^verbatim>\<open>setDirectories\<close> calls \<^verbatim>\<open>updateWatchedPaths\<close>.
\<close>

lemma setModuleReferences_watcher:
  "FileSystemWatcher (setModuleReferences fs mgr dirs d) = FileSystemWatcher d"
  by (simp add: setModuleReferences_def loadModules_frame unloadModules_frame)

lemma onDirectoryChanged_watcher:
  "FileSystemWatcher (onDirectoryChanged fs mgr path d) = FileSystemWatcher d"
  by (simp add: onDirectoryChanged_def updateModuleReferences_def Let_def setModuleReferences_watcher)

text \<open>
  C3, on the code. \<^verbatim>\<open>setDirectories\<close> watches \<^verbatim>\<open>/A\<close> with its executable \<^verbatim>\<open>/A/x\<close>; then
  \<^verbatim>\<open>/A/y\<close> appears on the disk and the directory-changed notification for \<^verbatim>\<open>/A\<close> arrives.
  The new file is loaded and becomes a key of the hash, and the watcher is what it was: the
  watched files are still only \<^verbatim>\<open>/A/x\<close>.
\<close>

theorem onDirectoryChanged_subscription_stale:
  "keys (setDirectories (sampleDisk [(''/A'', [''/A/x''])]) (sampleManager []) [''/A'']
           (construct freshManager)) = [''/A/x'']
   \<and> files (setDirectories (sampleDisk [(''/A'', [''/A/x''])]) (sampleManager []) [''/A'']
           (construct freshManager)) = [''/A/x'']
   \<and> keys (onDirectoryChanged (sampleDisk [(''/A'', [''/A/x'', ''/A/y''])]) (sampleManager []) ''/A''
        (setDirectories (sampleDisk [(''/A'', [''/A/x''])]) (sampleManager []) [''/A'']
           (construct freshManager))) = [''/A/x'', ''/A/y'']
   \<and> directories (onDirectoryChanged (sampleDisk [(''/A'', [''/A/x'', ''/A/y''])]) (sampleManager []) ''/A''
        (setDirectories (sampleDisk [(''/A'', [''/A/x''])]) (sampleManager []) [''/A'']
           (construct freshManager))) = [''/A'']
   \<and> files (onDirectoryChanged (sampleDisk [(''/A'', [''/A/x'', ''/A/y''])]) (sampleManager []) ''/A''
        (setDirectories (sampleDisk [(''/A'', [''/A/x''])]) (sampleManager []) [''/A'']
           (construct freshManager))) = [''/A/x'']"
  by code_simp

text \<open>
  C2, on the code. No directory is watched, \<^verbatim>\<open>/A\<close> exists with its executable \<^verbatim>\<open>/A/x\<close>, and
  the directory-changed notification for \<^verbatim>\<open>/A\<close> arrives. The directory is taken as a new one
  for the call (its executable is loaded), and after the call it is not among the watched
  directories.
\<close>

theorem onDirectoryChanged_unwatched_stays_unwatched:
  "directories (construct freshManager) = []
   \<and> modulesToLoad (sampleDisk [(''/A'', [''/A/x''])]) (construct freshManager) [''/A''] = [''/A/x'']
   \<and> keys (onDirectoryChanged (sampleDisk [(''/A'', [''/A/x''])]) (sampleManager []) ''/A''
        (construct freshManager)) = [''/A/x'']
   \<and> directories (onDirectoryChanged (sampleDisk [(''/A'', [''/A/x''])]) (sampleManager []) ''/A''
        (construct freshManager)) = []"
  by code_simp

section \<open>The two lists of a reconciliation\<close>

lemma concat_map_Nil: "(\<And>x. x \<in> set xs \<Longrightarrow> f x = []) \<Longrightarrow> concat (map f xs) = []"
  by (induction xs) auto

lemma concat_map_single:
  "distinct xs \<Longrightarrow> a \<in> set xs \<Longrightarrow> (\<And>x. x \<in> set xs \<Longrightarrow> x \<noteq> a \<Longrightarrow> f x = [])
     \<Longrightarrow> concat (map f xs) = f a"
proof (induction xs)
  case Nil
  then show ?case by simp
next
  case (Cons z zs)
  show ?case
  proof (cases "z = a")
    case True
    with Cons.prems have "concat (map f zs) = []"
      by (intro concat_map_Nil) auto
    with True show ?thesis by simp
  next
    case False
    with Cons.prems have "f z = []" "a \<in> set zs" "distinct zs" by auto
    with Cons.IH Cons.prems show ?thesis by auto
  qed
qed

lemma filter_only: "distinct xs \<Longrightarrow> y \<in> set xs \<Longrightarrow> filter (\<lambda>e. e = y) xs = [y]"
  by (induction xs) (auto simp: filter_empty_conv)

lemma filter_subset_Nil: "set xs \<subseteq> S \<Longrightarrow> filter (\<lambda>e. e \<notin> S) xs = []"
  by (auto simp: filter_empty_conv)

lemma loadModules_Nil: "loadModules mgr [] d = ([], d)"
  by (simp add: loadModules_def)

lemma unloadModules_Nil: "unloadModules mgr [] d = d"
  by (simp add: unloadModules_def)

lemma filterInvalidDirectories_single:
  "filterInvalidDirectories fs [path] =
     (if path \<noteq> [] \<and> trimmed path \<noteq> [] \<and> dirExists fs path then [dirAbsolutePath fs path] else [])"
  by (simp add: filterInvalidDirectories_def)

lemma modulesToUnload_watched:
  "modulesToUnload fs d (directories d) =
     concat (map (\<lambda>path. filter (\<lambda>executable. executable \<notin> set (getExecutablesInDirectory fs path))
                            (extractCurrentlyWatchedFilenamesInDirectory fs d path)) (directories d))"
proof -
  have 1: "concat (map (\<lambda>path. if path \<notin> set (directories d)
        then extractCurrentlyWatchedFilenamesInDirectory fs d path else []) (directories d)) = []"
    by (rule concat_map_Nil) simp
  have 2: "map (\<lambda>path. if path \<in> set (directories d) then
         filter (\<lambda>executable. executable \<notin> set (getExecutablesInDirectory fs path))
           (extractCurrentlyWatchedFilenamesInDirectory fs d path)
       else []) (directories d)
     = map (\<lambda>path. filter (\<lambda>executable. executable \<notin> set (getExecutablesInDirectory fs path))
                            (extractCurrentlyWatchedFilenamesInDirectory fs d path)) (directories d)"
    by (rule map_cong) simp_all
  show ?thesis unfolding modulesToUnload_def 1 2 by simp
qed

lemma modulesToLoad_watched:
  "modulesToLoad fs d (directories d) =
     concat (map (\<lambda>path. filter (\<lambda>executable. executable \<notin> set (extractCurrentlyWatchedFilenamesInDirectory fs d path))
                            (getExecutablesInDirectory fs path)) (directories d))"
proof -
  have 1: "map (\<lambda>path. if path \<in> set (directories d) then
         filter (\<lambda>executable. executable \<notin> set (extractCurrentlyWatchedFilenamesInDirectory fs d path))
           (getExecutablesInDirectory fs path)
       else getExecutablesInDirectory fs path) (directories d)
     = map (\<lambda>path. filter (\<lambda>executable. executable \<notin> set (extractCurrentlyWatchedFilenamesInDirectory fs d path))
                            (getExecutablesInDirectory fs path)) (directories d)"
    by (rule map_cong) simp_all
  show ?thesis unfolding modulesToLoad_def 1 by simp
qed

text \<open>
  C4, as amended. \<^verbatim>\<open>A\<close> is watched and tracks exactly \<^verbatim>\<open>x\<close> and \<^verbatim>\<open>y\<close>; \<^verbatim>\<open>y\<close> has left the disk
  and \<^verbatim>\<open>x\<close> is still an executable of \<^verbatim>\<open>A\<close>. The notification for \<^verbatim>\<open>A\<close> runs the
  reconciliation over all the watched directories. When every other watched directory
  tracks just the executables it holds now, the pass unloads \<^verbatim>\<open>y\<close> and nothing else, loads
  nothing, and leaves every other entry (that of \<^verbatim>\<open>x\<close> too) as it was.
\<close>

theorem onDirectoryChanged_targeted:
  assumes watched: "A \<in> set (directories d)" "distinct (directories d)"
    and valid: "A \<noteq> []" "trimmed A \<noteq> []" "dirExists fs A"
    and tracked: "set (extractCurrentlyWatchedFilenamesInDirectory fs d A) = {x, y}"
      "distinct (extractCurrentlyWatchedFilenamesInDirectory fs d A)" "x \<noteq> y"
    and disk: "set (getExecutablesInDirectory fs A) = {x}"
    and others: "\<forall>B \<in> set (directories d). B \<noteq> A \<longrightarrow>
      set (extractCurrentlyWatchedFilenamesInDirectory fs d B) = set (getExecutablesInDirectory fs B)"
  shows "modulesToUnload fs d (directories d) = [y]
    \<and> modulesToLoad fs d (directories d) = []
    \<and> onDirectoryChanged fs mgr A d = unloadModules mgr [y] d
    \<and> y \<notin> set (keys (onDirectoryChanged fs mgr A d))
    \<and> (\<forall>p. p \<noteq> y \<longrightarrow> map_of (MapFileNameToReference (onDirectoryChanged fs mgr A d)) p
                        = map_of (MapFileNameToReference d) p)"
proof -
  let ?tr = "extractCurrentlyWatchedFilenamesInDirectory fs d"
  let ?ex = "getExecutablesInDirectory fs"
  have uA: "filter (\<lambda>e. e \<notin> set (?ex A)) (?tr A) = [y]"
  proof -
    have "filter (\<lambda>e. e \<notin> set (?ex A)) (?tr A) = filter (\<lambda>e. e = y) (?tr A)"
      using tracked disk by (intro filter_cong) auto
    also have "\<dots> = [y]" using tracked by (intro filter_only) auto
    finally show ?thesis .
  qed
  have lA: "filter (\<lambda>e. e \<notin> set (?tr A)) (?ex A) = []"
    using tracked disk by (intro filter_subset_Nil) auto
  have uB: "filter (\<lambda>e. e \<notin> set (?ex B)) (?tr B) = []" if "B \<in> set (directories d)" "B \<noteq> A" for B
    using others that by (intro filter_subset_Nil) auto
  have lB: "filter (\<lambda>e. e \<notin> set (?tr B)) (?ex B) = []" if "B \<in> set (directories d)" "B \<noteq> A" for B
    using others that by (intro filter_subset_Nil) auto
  have U: "modulesToUnload fs d (directories d) = [y]"
    unfolding modulesToUnload_watched
    using concat_map_single[OF watched(2) watched(1),
        of "\<lambda>path. filter (\<lambda>e. e \<notin> set (?ex path)) (?tr path)"] uB uA by simp
  have L: "modulesToLoad fs d (directories d) = []"
    unfolding modulesToLoad_watched
    using concat_map_single[OF watched(2) watched(1),
        of "\<lambda>path. filter (\<lambda>e. e \<notin> set (?tr path)) (?ex path)"] lB lA by simp
  have ev: "onDirectoryChanged fs mgr A d = unloadModules mgr [y] d"
    using valid watched(1)
    by (simp add: onDirectoryChanged_def filterInvalidDirectories_single updateModuleReferences_def
        setModuleReferences_def U L loadModules_Nil)
  have gone: "y \<notin> set (keys (onDirectoryChanged fs mgr A d))"
    unfolding ev keys_def unloadModules_map keys_fold_delete by simp
  have rest: "\<forall>p. p \<noteq> y \<longrightarrow> map_of (MapFileNameToReference (onDirectoryChanged fs mgr A d)) p
                        = map_of (MapFileNameToReference d) p"
    unfolding ev unloadModules_map by (simp add: map_of_fold_delete)
  from U L ev gone rest show ?thesis by blast
qed

text \<open>
  C4, as stated, fails: the pass is not scoped to the changed directory. \<^verbatim>\<open>/A\<close> and \<^verbatim>\<open>/B\<close>
  are watched, \<^verbatim>\<open>/A/y\<close> leaves the disk and \<^verbatim>\<open>/B/w\<close> appears; the notification for \<^verbatim>\<open>/A\<close>
  unloads \<^verbatim>\<open>/A/y\<close> and also loads \<^verbatim>\<open>/B/w\<close>, a file of the other watched directory.
\<close>

theorem onDirectoryChanged_scoped_counterexample:
  "directories watchingAB = [''/A'', ''/B'']
   \<and> keys watchingAB = [''/A/x'', ''/A/y'', ''/B/z'']
   \<and> modulesToUnload diskAB_yRemoved_wAdded watchingAB (directories watchingAB) = [''/A/y'']
   \<and> modulesToLoad diskAB_yRemoved_wAdded watchingAB (directories watchingAB) = [''/B/w'']
   \<and> History (ModuleManager (onDirectoryChanged diskAB_yRemoved_wAdded (sampleManager []) ''/A'' watchingAB))
       = History (ModuleManager watchingAB)
         @ [ModuleReference ''/A/y'', UnregisterModule (Some 1), RegisterModule ''/B/w'']
   \<and> keys (onDirectoryChanged diskAB_yRemoved_wAdded (sampleManager []) ''/A'' watchingAB)
       = [''/A/x'', ''/B/z'', ''/B/w'']"
  by code_simp

text \<open>
  C4, as amended, on the sample disk: \<^verbatim>\<open>/A\<close> tracks \<^verbatim>\<open>x\<close> and \<^verbatim>\<open>y\<close>, \<^verbatim>\<open>y\<close> is removed, \<^verbatim>\<open>/B\<close> is
  as it was. Only \<^verbatim>\<open>/A/y\<close> is unloaded and the entry of \<^verbatim>\<open>/A/x\<close> stays.
\<close>

theorem onDirectoryChanged_targeted_witness:
  "directories watchingAB = [''/A'', ''/B'']
   \<and> extractCurrentlyWatchedFilenamesInDirectory diskAB_yRemoved watchingAB ''/A'' = [''/A/x'', ''/A/y'']
   \<and> getExecutablesInDirectory diskAB_yRemoved ''/A'' = [''/A/x'']
   \<and> extractCurrentlyWatchedFilenamesInDirectory diskAB_yRemoved watchingAB ''/B''
       = getExecutablesInDirectory diskAB_yRemoved ''/B''
   \<and> modulesToUnload diskAB_yRemoved watchingAB (directories watchingAB) = [''/A/y'']
   \<and> modulesToLoad diskAB_yRemoved watchingAB (directories watchingAB) = []
   \<and> onDirectoryChanged diskAB_yRemoved (sampleManager []) ''/A'' watchingAB
       = unloadModules (sampleManager []) [''/A/y''] watchingAB
   \<and> map_of (MapFileNameToReference
        (onDirectoryChanged diskAB_yRemoved (sampleManager []) ''/A'' watchingAB)) ''/A/x''
       = Some (Some 0)"
proof -
  let ?fs = diskAB_yRemoved
  have dirs: "directories watchingAB = [''/A'', ''/B'']" by code_simp
  have trA: "extractCurrentlyWatchedFilenamesInDirectory ?fs watchingAB ''/A'' = [''/A/x'', ''/A/y'']"
    by code_simp
  have exA: "getExecutablesInDirectory ?fs ''/A'' = [''/A/x'']" by code_simp
  have B: "extractCurrentlyWatchedFilenamesInDirectory ?fs watchingAB ''/B''
       = getExecutablesInDirectory ?fs ''/B''" by code_simp
  have old: "map_of (MapFileNameToReference watchingAB) ''/A/x'' = Some (Some 0)" by code_simp
  have h1: "''/A'' \<in> set (directories watchingAB)" "distinct (directories watchingAB)"
    unfolding dirs by simp_all
  have h2: "''/A'' \<noteq> []" "trimmed ''/A'' \<noteq> []" "dirExists ?fs ''/A''" by code_simp+
  have h3: "set (extractCurrentlyWatchedFilenamesInDirectory ?fs watchingAB ''/A'') = {''/A/x'', ''/A/y''}"
    "distinct (extractCurrentlyWatchedFilenamesInDirectory ?fs watchingAB ''/A'')" "''/A/x'' \<noteq> ''/A/y''"
    unfolding trA by simp_all
  have h4: "set (getExecutablesInDirectory ?fs ''/A'') = {''/A/x''}" unfolding exA by simp
  have h5: "\<forall>B \<in> set (directories watchingAB). B \<noteq> ''/A'' \<longrightarrow>
      set (extractCurrentlyWatchedFilenamesInDirectory ?fs watchingAB B)
        = set (getExecutablesInDirectory ?fs B)"
    unfolding dirs using B by simp
  note t = onDirectoryChanged_targeted[OF h1 h2 h3 h4 h5, of "sampleManager []"]
  note U = t[THEN conjunct1]
  note L = t[THEN conjunct2, THEN conjunct1]
  note ev = t[THEN conjunct2, THEN conjunct2, THEN conjunct1]
  note rest = t[THEN conjunct2, THEN conjunct2, THEN conjunct2, THEN conjunct2]
  have x: "map_of (MapFileNameToReference
        (onDirectoryChanged ?fs (sampleManager []) ''/A'' watchingAB)) ''/A/x'' = Some (Some 0)"
    using rest[THEN spec, THEN mp, OF h3(3)] old by (rule trans)
  show ?thesis
    by (intro conjI) (fact dirs trA exA B U L ev x)+
qed

section \<open>The full reconciliation\<close>

lemma loadModules_keys_subset:
  "set (keys (snd (loadModules mgr xs d))) \<subseteq> set (keys d) \<union> set xs"
proof -
  have "{x. \<exists>r. (x, r) \<in> set (zip xs (fst (loadModules mgr xs d))) \<and> r \<noteq> None} \<subseteq> set xs"
    by (auto dest: set_zip_leftD)
  then show ?thesis unfolding keys_def loadModules_map storeValid_keys by blast
qed

lemma loadModules_map_of_other:
  "p \<notin> set xs \<Longrightarrow>
     map_of (MapFileNameToReference (snd (loadModules mgr xs d))) p = map_of (MapFileNameToReference d) p"
  unfolding loadModules_map
  by (rule storeValid_unchanged) (auto dest: set_zip_leftD)

lemma in_extract:
  "f \<in> set (extractCurrentlyWatchedFilenamesInDirectory fs d path) \<longleftrightarrow>
     dirExists fs path \<and>
     (\<exists>k \<in> set (keys d). fileAbsolutePath fs k = dirAbsolutePath fs path \<and> f = fileAbsoluteFilePath fs k)"
  by (auto simp: extractCurrentlyWatchedFilenamesInDirectory_def split: if_splits)

lemma in_modulesToUnload:
  "f \<in> set (modulesToUnload fs d dirs) \<longleftrightarrow>
     (\<exists>w \<in> set (directories d). w \<notin> set dirs
        \<and> f \<in> set (extractCurrentlyWatchedFilenamesInDirectory fs d w))
     \<or> (\<exists>p \<in> set dirs. p \<in> set (directories d)
        \<and> f \<in> set (extractCurrentlyWatchedFilenamesInDirectory fs d p)
        \<and> f \<notin> set (getExecutablesInDirectory fs p))"
  by (auto simp: modulesToUnload_def split: if_splits)

lemma in_modulesToLoad:
  "f \<in> set (modulesToLoad fs d dirs) \<longleftrightarrow>
     (\<exists>p \<in> set dirs. f \<in> set (getExecutablesInDirectory fs p)
        \<and> (p \<in> set (directories d) \<longrightarrow> f \<notin> set (extractCurrentlyWatchedFilenamesInDirectory fs d p)))"
  by (auto simp: modulesToLoad_def split: if_splits)

lemma updateWatchedPaths_frame:
  "MapFileNameToReference (updateWatchedPaths fs dirs fls d) = MapFileNameToReference d"
  "ModuleManager (updateWatchedPaths fs dirs fls d) = ModuleManager d"
  "Debug (updateWatchedPaths fs dirs fls d) = Debug d"
  by (simp_all add: updateWatchedPaths_def Let_def)

lemma addPaths_Nil: "addPaths fs [] w = w"
  by (simp add: addPaths_def)

lemma removePaths_all:
  "removePaths (watchedFiles w) (removePaths (watchedDirectories w) w)
     = \<lparr>watchedDirectories = [], watchedFiles = []\<rparr>"
  by (simp add: removePaths_def filter_empty_conv)

lemma updateWatchedPaths_watcher:
  "FileSystemWatcher (updateWatchedPaths fs dirs fls d)
     = addPaths fs fls (addPaths fs dirs \<lparr>watchedDirectories = [], watchedFiles = []\<rparr>)"
proof -
  let ?w = "FileSystemWatcher d"
  let ?w1 = "if length (watchedDirectories ?w) > 0 then removePaths (watchedDirectories ?w) ?w else ?w"
  let ?w2 = "if length (watchedFiles ?w) > 0 then removePaths (watchedFiles ?w) ?w1 else ?w1"
  have w1: "?w1 = removePaths (watchedDirectories ?w) ?w"
    by (cases ?w) (simp add: removePaths_def)
  have "?w2 = removePaths (watchedFiles ?w) ?w1"
    by (cases ?w) (simp add: removePaths_def)
  then have w2: "?w2 = \<lparr>watchedDirectories = [], watchedFiles = []\<rparr>"
    unfolding w1 by (simp only: removePaths_all)
  have a: "(if length xs > 0 then addPaths fs xs w else w) = addPaths fs xs w" for xs w
    by (simp add: addPaths_Nil)
  show ?thesis
    unfolding updateWatchedPaths_def Let_def directories_def files_def a
    using w2 by simp
qed

lemma setDirectories_map:
  "MapFileNameToReference (setDirectories fs mgr dirs d)
     = MapFileNameToReference (setModuleReferences fs mgr (filterInvalidDirectories fs dirs) d)"
  by (simp add: setDirectories_def Let_def updateWatchedPaths_frame)

lemma setModuleReferences_map_of_other:
  assumes "p \<notin> set (modulesToUnload fs d dirs)" "p \<notin> set (modulesToLoad fs d dirs)"
  shows "map_of (MapFileNameToReference (setModuleReferences fs mgr dirs d)) p
       = map_of (MapFileNameToReference d) p"
  using assms
  by (simp add: setModuleReferences_def loadModules_map_of_other unloadModules_map map_of_fold_delete)

lemma setModuleReferences_unloaded:
  assumes "f \<in> set (modulesToUnload fs d dirs)" "f \<notin> set (modulesToLoad fs d dirs)"
  shows "f \<notin> set (keys (setModuleReferences fs mgr dirs d))"
proof -
  have "f \<notin> set (keys (unloadModules mgr (modulesToUnload fs d dirs) d))"
    using assms(1) unfolding keys_def unloadModules_map keys_fold_delete by simp
  with assms(2) loadModules_keys_subset[of mgr "modulesToLoad fs d dirs"
      "unloadModules mgr (modulesToUnload fs d dirs) d"]
  show ?thesis unfolding setModuleReferences_def by blast
qed

lemma setDirectories_drop_general:
  assumes "A \<in> set (directories d)" "A \<notin> set (filterInvalidDirectories fs dirs)" "dirExists fs A"
  shows "set (extractCurrentlyWatchedFilenamesInDirectory fs d A)
           = {fileAbsoluteFilePath fs k | k. k \<in> set (keys d) \<and> fileAbsolutePath fs k = dirAbsolutePath fs A}"
    and "set (extractCurrentlyWatchedFilenamesInDirectory fs d A)
           \<subseteq> set (modulesToUnload fs d (filterInvalidDirectories fs dirs))"
    and "\<forall>f \<in> set (extractCurrentlyWatchedFilenamesInDirectory fs d A).
           f \<notin> set (modulesToLoad fs d (filterInvalidDirectories fs dirs))
           \<longrightarrow> f \<notin> set (keys (setDirectories fs mgr dirs d))"
proof -
  show 1: "set (extractCurrentlyWatchedFilenamesInDirectory fs d A)
           = {fileAbsoluteFilePath fs k | k. k \<in> set (keys d) \<and> fileAbsolutePath fs k = dirAbsolutePath fs A}"
    using assms(3) by (auto simp: in_extract)
  show 2: "set (extractCurrentlyWatchedFilenamesInDirectory fs d A)
           \<subseteq> set (modulesToUnload fs d (filterInvalidDirectories fs dirs))"
    using assms(1,2) by (auto simp: in_modulesToUnload)
  show "\<forall>f \<in> set (extractCurrentlyWatchedFilenamesInDirectory fs d A).
           f \<notin> set (modulesToLoad fs d (filterInvalidDirectories fs dirs))
           \<longrightarrow> f \<notin> set (keys (setDirectories fs mgr dirs d))"
  proof (intro ballI impI)
    fix f
    assume "f \<in> set (extractCurrentlyWatchedFilenamesInDirectory fs d A)"
      and nl: "f \<notin> set (modulesToLoad fs d (filterInvalidDirectories fs dirs))"
    with 2 have "f \<in> set (modulesToUnload fs d (filterInvalidDirectories fs dirs))" by blast
    from setModuleReferences_unloaded[OF this nl, of mgr]
    show "f \<notin> set (keys (setDirectories fs mgr dirs d))"
      by (simp add: keys_def setDirectories_map)
  qed
qed

lemma extract_single:
  assumes "distinct (keys d)" "k \<in> set (keys d)" "dirExists fs P"
    and "fileAbsolutePath fs k = dirAbsolutePath fs P"
    and "\<And>k'. k' \<in> set (keys d) \<Longrightarrow> k' \<noteq> k \<Longrightarrow> fileAbsolutePath fs k' \<noteq> dirAbsolutePath fs P"
  shows "extractCurrentlyWatchedFilenamesInDirectory fs d P = [fileAbsoluteFilePath fs k]"
  unfolding extractCurrentlyWatchedFilenamesInDirectory_def
  using concat_map_single[OF assms(1,2),
      of "\<lambda>fileName. if fileAbsolutePath fs fileName = dirAbsolutePath fs P
                       then [fileAbsoluteFilePath fs fileName] else []"] assms(3,4,5)
  by simp

lemma removeAll_other:
  assumes "distinct xs" "set xs = {a, b}" "a \<noteq> b"
  shows "removeAll a xs = [b]"
proof -
  have "removeAll a xs = filter (\<lambda>e. e = b) xs"
    unfolding removeAll_filter_not_eq using assms by (intro filter_cong) auto
  also have "\<dots> = [b]" using assms by (intro filter_only) auto
  finally show ?thesis .
qed

lemma setDirectories_drop_two_directories:
  assumes dirs: "set (directories d) = {A, B}" "distinct (directories d)" "A \<noteq> B"
    and ks: "set (keys d) = {a, b}" "distinct (keys d)" "a \<noteq> b"
    and parent: "fileAbsolutePath fs a = dirAbsolutePath fs A" "fileAbsolutePath fs b = dirAbsolutePath fs B"
      "dirAbsolutePath fs A \<noteq> dirAbsolutePath fs B"
    and abs: "fileAbsoluteFilePath fs a = a" "fileAbsoluteFilePath fs b = b"
    and A: "dirExists fs A"
    and B: "B \<noteq> []" "trimmed B \<noteq> []" "dirExists fs B" "dirAbsolutePath fs B = B"
    and disk: "getExecutablesInDirectory fs B = [b]"
    and b: "b \<noteq> []" "\<not> dirExists fs b" "fileExists fs b"
  shows "modulesToUnload fs d (filterInvalidDirectories fs [B]) = [a]"
    and "modulesToLoad fs d (filterInvalidDirectories fs [B]) = []"
    and "ModuleManager (setDirectories fs mgr [B] d) = ModuleManager (unloadModules mgr [a] d)"
    and "MapFileNameToReference (setDirectories fs mgr [B] d) = AList.delete a (MapFileNameToReference d)"
    and "map_of (MapFileNameToReference (setDirectories fs mgr [B] d)) b = map_of (MapFileNameToReference d) b"
    and "keys (setDirectories fs mgr [B] d) = [b]"
    and "files (setDirectories fs mgr [B] d) = [b]"
    and "directories (setDirectories fs mgr [B] d) = [B]"
proof -
  have v: "filterInvalidDirectories fs [B] = [B]"
    using B by (simp add: filterInvalidDirectories_single)
  have eA: "extractCurrentlyWatchedFilenamesInDirectory fs d A = [a]"
    using extract_single[OF ks(2), of a fs A] ks(1) parent A abs(1) by auto
  have eB: "extractCurrentlyWatchedFilenamesInDirectory fs d B = [b]"
    using extract_single[OF ks(2), of b fs B] ks(1) parent B(3) abs(2) by auto
  have inA: "A \<in> set (directories d)" and inB: "B \<in> set (directories d)" using dirs(1) by auto
  have "concat (map (\<lambda>path. if path \<notin> set [B]
          then extractCurrentlyWatchedFilenamesInDirectory fs d path else []) (directories d))
        = (if A \<notin> set [B] then extractCurrentlyWatchedFilenamesInDirectory fs d A else [])"
    using dirs by (intro concat_map_single[OF dirs(2) inA]) auto
  then show U: "modulesToUnload fs d (filterInvalidDirectories fs [B]) = [a]"
    unfolding v modulesToUnload_def using dirs(3) inB eA eB disk by simp
  show L: "modulesToLoad fs d (filterInvalidDirectories fs [B]) = []"
    unfolding v modulesToLoad_def using inB eB disk by simp
  have d1: "setModuleReferences fs mgr [B] d = unloadModules mgr [a] d"
    using U L unfolding v by (simp add: setModuleReferences_def loadModules_Nil)
  have sd: "setDirectories fs mgr [B] d
      = updateWatchedPaths fs [B] (keys (unloadModules mgr [a] d)) (unloadModules mgr [a] d)"
    by (simp add: setDirectories_def Let_def v d1)
  show "ModuleManager (setDirectories fs mgr [B] d) = ModuleManager (unloadModules mgr [a] d)"
    unfolding sd by (simp add: updateWatchedPaths_frame)
  show m: "MapFileNameToReference (setDirectories fs mgr [B] d) = AList.delete a (MapFileNameToReference d)"
    unfolding sd by (simp add: updateWatchedPaths_frame unloadModules_map)
  show "map_of (MapFileNameToReference (setDirectories fs mgr [B] d)) b = map_of (MapFileNameToReference d) b"
    unfolding m using ks(3) by (simp add: AList.delete_conv')
  have k1: "keys (unloadModules mgr [a] d) = [b]"
    unfolding keys_def unloadModules_map
    using removeAll_other[OF ks(2) ks(1) ks(3)] by (simp add: AList.delete_keys keys_def)
  show "keys (setDirectories fs mgr [B] d) = [b]"
    using k1 unfolding sd keys_def by (simp add: updateWatchedPaths_frame)
  have w: "FileSystemWatcher (setDirectories fs mgr [B] d) = \<lparr>watchedDirectories = [B], watchedFiles = [b]\<rparr>"
    unfolding sd updateWatchedPaths_watcher k1 using B b by (simp add: addPaths_def addPath_def)
  show "files (setDirectories fs mgr [B] d) = [b]" unfolding files_def w by simp
  show "directories (setDirectories fs mgr [B] d) = [B]" unfolding directories_def w by simp
qed

text \<open>
  The first loop of \<^verbatim>\<open>setModuleReferences\<close> on a directory \<open>A\<close> that is watched, is not in
  the requested list (after filtering) and still exists on the disk. The tracked files in
  \<open>A\<close> are the keys whose directory is \<open>A\<close>; all of them are in the list to unload, and
  each of them that is not loaded again in the same pass is no key afterwards. A file is in
  the list to unload only as a tracked file of a watched directory that is not requested,
  or as a tracked file of a requested watched directory that is no longer among its
  executables; and a path that is neither unloaded nor loaded keeps its entry. In the case
  of two watched directories \<open>A\<close> and \<open>B\<close>, both on the disk, with one tracked file each,
  \<open>a\<close> and \<open>b\<close>: \<^verbatim>\<open>setDirectories([B])\<close> unloads \<open>a\<close> and nothing else, loads nothing, leaves
  the entry of \<open>b\<close> as it was, and afterwards \<^verbatim>\<open>files()\<close> is \<open>b\<close> alone.
\<close>

lemma setDirectories_drops_directory:
  "(A \<in> set (directories d) \<and> A \<notin> set (filterInvalidDirectories fs dirs) \<and> dirExists fs A \<longrightarrow>
      set (extractCurrentlyWatchedFilenamesInDirectory fs d A)
        = {fileAbsoluteFilePath fs k | k. k \<in> set (keys d) \<and> fileAbsolutePath fs k = dirAbsolutePath fs A}
      \<and> set (extractCurrentlyWatchedFilenamesInDirectory fs d A)
           \<subseteq> set (modulesToUnload fs d (filterInvalidDirectories fs dirs))
      \<and> (\<forall>f \<in> set (extractCurrentlyWatchedFilenamesInDirectory fs d A).
           f \<notin> set (modulesToLoad fs d (filterInvalidDirectories fs dirs))
           \<longrightarrow> f \<notin> set (keys (setDirectories fs mgr dirs d))))
   \<and> (\<forall>f. f \<in> set (modulesToUnload fs d (filterInvalidDirectories fs dirs)) \<longleftrightarrow>
         (\<exists>w \<in> set (directories d). w \<notin> set (filterInvalidDirectories fs dirs)
            \<and> f \<in> set (extractCurrentlyWatchedFilenamesInDirectory fs d w))
         \<or> (\<exists>p \<in> set (filterInvalidDirectories fs dirs). p \<in> set (directories d)
            \<and> f \<in> set (extractCurrentlyWatchedFilenamesInDirectory fs d p)
            \<and> f \<notin> set (getExecutablesInDirectory fs p)))
   \<and> (\<forall>p. p \<notin> set (modulesToUnload fs d (filterInvalidDirectories fs dirs))
          \<and> p \<notin> set (modulesToLoad fs d (filterInvalidDirectories fs dirs))
        \<longrightarrow> map_of (MapFileNameToReference (setDirectories fs mgr dirs d)) p
            = map_of (MapFileNameToReference d) p)
   \<and> (set (directories d) = {A, B} \<and> distinct (directories d) \<and> A \<noteq> B
       \<and> set (keys d) = {a, b} \<and> distinct (keys d) \<and> a \<noteq> b
       \<and> fileAbsolutePath fs a = dirAbsolutePath fs A \<and> fileAbsolutePath fs b = dirAbsolutePath fs B
       \<and> dirAbsolutePath fs A \<noteq> dirAbsolutePath fs B
       \<and> fileAbsoluteFilePath fs a = a \<and> fileAbsoluteFilePath fs b = b
       \<and> dirExists fs A
       \<and> B \<noteq> [] \<and> trimmed B \<noteq> [] \<and> dirExists fs B \<and> dirAbsolutePath fs B = B
       \<and> getExecutablesInDirectory fs B = [b]
       \<and> b \<noteq> [] \<and> \<not> dirExists fs b \<and> fileExists fs b
      \<longrightarrow> modulesToUnload fs d (filterInvalidDirectories fs [B]) = [a]
        \<and> modulesToLoad fs d (filterInvalidDirectories fs [B]) = []
        \<and> ModuleManager (setDirectories fs mgr [B] d) = ModuleManager (unloadModules mgr [a] d)
        \<and> MapFileNameToReference (setDirectories fs mgr [B] d) = AList.delete a (MapFileNameToReference d)
        \<and> map_of (MapFileNameToReference (setDirectories fs mgr [B] d)) b
            = map_of (MapFileNameToReference d) b
        \<and> keys (setDirectories fs mgr [B] d) = [b]
        \<and> files (setDirectories fs mgr [B] d) = [b]
        \<and> directories (setDirectories fs mgr [B] d) = [B])"
proof -
  have G: "A \<in> set (directories d) \<and> A \<notin> set (filterInvalidDirectories fs dirs) \<and> dirExists fs A \<longrightarrow>
      set (extractCurrentlyWatchedFilenamesInDirectory fs d A)
        = {fileAbsoluteFilePath fs k | k. k \<in> set (keys d) \<and> fileAbsolutePath fs k = dirAbsolutePath fs A}
      \<and> set (extractCurrentlyWatchedFilenamesInDirectory fs d A)
           \<subseteq> set (modulesToUnload fs d (filterInvalidDirectories fs dirs))
      \<and> (\<forall>f \<in> set (extractCurrentlyWatchedFilenamesInDirectory fs d A).
           f \<notin> set (modulesToLoad fs d (filterInvalidDirectories fs dirs))
           \<longrightarrow> f \<notin> set (keys (setDirectories fs mgr dirs d)))"
  proof (rule impI)
    assume "A \<in> set (directories d) \<and> A \<notin> set (filterInvalidDirectories fs dirs) \<and> dirExists fs A"
    then have h: "A \<in> set (directories d)" "A \<notin> set (filterInvalidDirectories fs dirs)" "dirExists fs A"
      by simp_all
    show "set (extractCurrentlyWatchedFilenamesInDirectory fs d A)
        = {fileAbsoluteFilePath fs k | k. k \<in> set (keys d) \<and> fileAbsolutePath fs k = dirAbsolutePath fs A}
      \<and> set (extractCurrentlyWatchedFilenamesInDirectory fs d A)
           \<subseteq> set (modulesToUnload fs d (filterInvalidDirectories fs dirs))
      \<and> (\<forall>f \<in> set (extractCurrentlyWatchedFilenamesInDirectory fs d A).
           f \<notin> set (modulesToLoad fs d (filterInvalidDirectories fs dirs))
           \<longrightarrow> f \<notin> set (keys (setDirectories fs mgr dirs d)))"
      by (intro conjI setDirectories_drop_general[OF h])
  qed
  have E: "\<forall>f. f \<in> set (modulesToUnload fs d (filterInvalidDirectories fs dirs)) \<longleftrightarrow>
         (\<exists>w \<in> set (directories d). w \<notin> set (filterInvalidDirectories fs dirs)
            \<and> f \<in> set (extractCurrentlyWatchedFilenamesInDirectory fs d w))
         \<or> (\<exists>p \<in> set (filterInvalidDirectories fs dirs). p \<in> set (directories d)
            \<and> f \<in> set (extractCurrentlyWatchedFilenamesInDirectory fs d p)
            \<and> f \<notin> set (getExecutablesInDirectory fs p))"
    by (intro allI in_modulesToUnload)
  have F: "\<forall>p. p \<notin> set (modulesToUnload fs d (filterInvalidDirectories fs dirs))
          \<and> p \<notin> set (modulesToLoad fs d (filterInvalidDirectories fs dirs))
        \<longrightarrow> map_of (MapFileNameToReference (setDirectories fs mgr dirs d)) p
            = map_of (MapFileNameToReference d) p"
    unfolding setDirectories_map by (intro allI impI setModuleReferences_map_of_other) simp_all
  have S: "set (directories d) = {A, B} \<and> distinct (directories d) \<and> A \<noteq> B
       \<and> set (keys d) = {a, b} \<and> distinct (keys d) \<and> a \<noteq> b
       \<and> fileAbsolutePath fs a = dirAbsolutePath fs A \<and> fileAbsolutePath fs b = dirAbsolutePath fs B
       \<and> dirAbsolutePath fs A \<noteq> dirAbsolutePath fs B
       \<and> fileAbsoluteFilePath fs a = a \<and> fileAbsoluteFilePath fs b = b
       \<and> dirExists fs A
       \<and> B \<noteq> [] \<and> trimmed B \<noteq> [] \<and> dirExists fs B \<and> dirAbsolutePath fs B = B
       \<and> getExecutablesInDirectory fs B = [b]
       \<and> b \<noteq> [] \<and> \<not> dirExists fs b \<and> fileExists fs b
      \<longrightarrow> modulesToUnload fs d (filterInvalidDirectories fs [B]) = [a]
        \<and> modulesToLoad fs d (filterInvalidDirectories fs [B]) = []
        \<and> ModuleManager (setDirectories fs mgr [B] d) = ModuleManager (unloadModules mgr [a] d)
        \<and> MapFileNameToReference (setDirectories fs mgr [B] d) = AList.delete a (MapFileNameToReference d)
        \<and> map_of (MapFileNameToReference (setDirectories fs mgr [B] d)) b
            = map_of (MapFileNameToReference d) b
        \<and> keys (setDirectories fs mgr [B] d) = [b]
        \<and> files (setDirectories fs mgr [B] d) = [b]
        \<and> directories (setDirectories fs mgr [B] d) = [B]"
  proof (rule impI)
    assume s: "set (directories d) = {A, B} \<and> distinct (directories d) \<and> A \<noteq> B
       \<and> set (keys d) = {a, b} \<and> distinct (keys d) \<and> a \<noteq> b
       \<and> fileAbsolutePath fs a = dirAbsolutePath fs A \<and> fileAbsolutePath fs b = dirAbsolutePath fs B
       \<and> dirAbsolutePath fs A \<noteq> dirAbsolutePath fs B
       \<and> fileAbsoluteFilePath fs a = a \<and> fileAbsoluteFilePath fs b = b
       \<and> dirExists fs A
       \<and> B \<noteq> [] \<and> trimmed B \<noteq> [] \<and> dirExists fs B \<and> dirAbsolutePath fs B = B
       \<and> getExecutablesInDirectory fs B = [b]
       \<and> b \<noteq> [] \<and> \<not> dirExists fs b \<and> fileExists fs b"
    note t = setDirectories_drop_two_directories[of d A B a b fs]
    from s show "modulesToUnload fs d (filterInvalidDirectories fs [B]) = [a]
        \<and> modulesToLoad fs d (filterInvalidDirectories fs [B]) = []
        \<and> ModuleManager (setDirectories fs mgr [B] d) = ModuleManager (unloadModules mgr [a] d)
        \<and> MapFileNameToReference (setDirectories fs mgr [B] d) = AList.delete a (MapFileNameToReference d)
        \<and> map_of (MapFileNameToReference (setDirectories fs mgr [B] d)) b
            = map_of (MapFileNameToReference d) b
        \<and> keys (setDirectories fs mgr [B] d) = [b]
        \<and> files (setDirectories fs mgr [B] d) = [b]
        \<and> directories (setDirectories fs mgr [B] d) = [B]"
      by (intro conjI t) blast+
  qed
  show ?thesis
    by (intro conjI) (fact G E F S)+
qed

text \<open>
  The same on the sample disk with \<^verbatim>\<open>/A/a\<close> and \<^verbatim>\<open>/B/b\<close>, both watched and both directories
  in place: \<^verbatim>\<open>setDirectories([/B])\<close> unloads \<^verbatim>\<open>/A/a\<close> only.
\<close>

lemma setDirectories_drops_directory_example:
  "directories watchingOneEach = [''/A'', ''/B'']
   \<and> keys watchingOneEach = [''/A/a'', ''/B/b'']
   \<and> dirExists diskOneEach ''/A''
   \<and> ''/A'' \<notin> set (filterInvalidDirectories diskOneEach [''/B''])
   \<and> extractCurrentlyWatchedFilenamesInDirectory diskOneEach watchingOneEach ''/A'' = [''/A/a'']
   \<and> modulesToUnload diskOneEach watchingOneEach (filterInvalidDirectories diskOneEach [''/B'']) = [''/A/a'']
   \<and> modulesToLoad diskOneEach watchingOneEach (filterInvalidDirectories diskOneEach [''/B'']) = []
   \<and> History (ModuleManager (setDirectories diskOneEach (sampleManager []) [''/B''] watchingOneEach))
       = History (ModuleManager watchingOneEach) @ [ModuleReference ''/A/a'', UnregisterModule (Some 0)]
   \<and> map_of (MapFileNameToReference (setDirectories diskOneEach (sampleManager []) [''/B''] watchingOneEach))
        ''/B/b'' = Some (Some 1)
   \<and> keys (setDirectories diskOneEach (sampleManager []) [''/B''] watchingOneEach) = [''/B/b'']
   \<and> files (setDirectories diskOneEach (sampleManager []) [''/B''] watchingOneEach) = [''/B/b'']
   \<and> ''/A/a'' \<notin> set (keys (setDirectories diskOneEach (sampleManager []) [''/B''] watchingOneEach))"
proof -
  let ?fs = diskOneEach and ?d = watchingOneEach and ?mgr = "sampleManager []"
  note t = setDirectories_drops_directory[of "''/A''" ?d ?fs "[''/B'']" ?mgr "''/B''" "''/A/a''" "''/B/b''"]
  have dirs: "directories ?d = [''/A'', ''/B'']" by code_simp
  have ks: "keys ?d = [''/A/a'', ''/B/b'']" by code_simp
  have exA: "dirExists ?fs ''/A''" by code_simp
  have notin: "''/A'' \<notin> set (filterInvalidDirectories ?fs [''/B''])" by code_simp
  have trA: "extractCurrentlyWatchedFilenamesInDirectory ?fs ?d ''/A'' = [''/A/a'']" by code_simp
  have old: "map_of (MapFileNameToReference ?d) ''/B/b'' = Some (Some 1)" by code_simp
  have hist: "History (ModuleManager (unloadModules ?mgr [''/A/a''] ?d))
       = History (ModuleManager ?d) @ [ModuleReference ''/A/a'', UnregisterModule (Some 0)]"
    by code_simp
  have g: "''/A'' \<in> set (directories ?d) \<and> ''/A'' \<notin> set (filterInvalidDirectories ?fs [''/B''])
      \<and> dirExists ?fs ''/A''"
    using notin exA unfolding dirs by simp
  have s: "set (directories ?d) = {''/A'', ''/B''} \<and> distinct (directories ?d) \<and> ''/A'' \<noteq> ''/B''
       \<and> set (keys ?d) = {''/A/a'', ''/B/b''} \<and> distinct (keys ?d) \<and> ''/A/a'' \<noteq> ''/B/b''
       \<and> fileAbsolutePath ?fs ''/A/a'' = dirAbsolutePath ?fs ''/A''
       \<and> fileAbsolutePath ?fs ''/B/b'' = dirAbsolutePath ?fs ''/B''
       \<and> dirAbsolutePath ?fs ''/A'' \<noteq> dirAbsolutePath ?fs ''/B''
       \<and> fileAbsoluteFilePath ?fs ''/A/a'' = ''/A/a'' \<and> fileAbsoluteFilePath ?fs ''/B/b'' = ''/B/b''
       \<and> dirExists ?fs ''/A''
       \<and> ''/B'' \<noteq> [] \<and> trimmed ''/B'' \<noteq> [] \<and> dirExists ?fs ''/B'' \<and> dirAbsolutePath ?fs ''/B'' = ''/B''
       \<and> getExecutablesInDirectory ?fs ''/B'' = [''/B/b'']
       \<and> ''/B/b'' \<noteq> [] \<and> \<not> dirExists ?fs ''/B/b'' \<and> fileExists ?fs ''/B/b''"
    unfolding dirs ks by (intro conjI) code_simp+
  note G = t[THEN conjunct1, THEN mp, OF g]
  note S = t[THEN conjunct2, THEN conjunct2, THEN conjunct2, THEN mp, OF s]
  note U = S[THEN conjunct1]
  note L = S[THEN conjunct2, THEN conjunct1]
  note M = S[THEN conjunct2, THEN conjunct2, THEN conjunct1]
  note b = S[THEN conjunct2, THEN conjunct2, THEN conjunct2, THEN conjunct2, THEN conjunct1]
  note k = S[THEN conjunct2, THEN conjunct2, THEN conjunct2, THEN conjunct2, THEN conjunct2, THEN conjunct1]
  note f = S[THEN conjunct2, THEN conjunct2, THEN conjunct2, THEN conjunct2, THEN conjunct2,
      THEN conjunct2, THEN conjunct1]
  have H: "History (ModuleManager (setDirectories ?fs ?mgr [''/B''] ?d))
       = History (ModuleManager ?d) @ [ModuleReference ''/A/a'', UnregisterModule (Some 0)]"
    unfolding M by (rule hist)
  have b': "map_of (MapFileNameToReference (setDirectories ?fs ?mgr [''/B''] ?d)) ''/B/b'' = Some (Some 1)"
    using b old by (rule trans)
  have inA: "''/A/a'' \<in> set (extractCurrentlyWatchedFilenamesInDirectory ?fs ?d ''/A'')"
    unfolding trA by simp
  have nl: "''/A/a'' \<notin> set (modulesToLoad ?fs ?d (filterInvalidDirectories ?fs [''/B'']))"
    unfolding L by simp
  have gone: "''/A/a'' \<notin> set (keys (setDirectories ?fs ?mgr [''/B''] ?d))"
    using G[THEN conjunct2, THEN conjunct2, THEN bspec, OF inA, THEN mp, OF nl] .
  show ?thesis
    by (intro conjI) (fact dirs ks exA notin trA U L H b' k f gone)+
qed

text \<open>
  C5, on the code. The comment over the first loop of \<^verbatim>\<open>setModuleReferences\<close> says that it
  removes the modules of the watched directories that are no longer requested. \<^verbatim>\<open>/A\<close> and
  \<^verbatim>\<open>/B\<close> are watched with one tracked file each; \<^verbatim>\<open>/A\<close> has been deleted from the disk with
  its file. \<^verbatim>\<open>setDirectories([/B])\<close> drops \<^verbatim>\<open>/A\<close> from the watched directories, and the guard
  on the existence of the directory in \<^verbatim>\<open>extractCurrentlyWatchedFilenamesInDirectory\<close> makes
  the list of its tracked files empty: nothing is unloaded, \<^verbatim>\<open>/A/a\<close> stays a key of the hash
  and stays registered with the manager. A later \<^verbatim>\<open>setDirectories([])\<close> does not remove it
  either.
\<close>

theorem setDirectories_deleted_directory_keeps_modules:
  "directories watchingOneEach = [''/A'', ''/B'']
   \<and> keys watchingOneEach = [''/A/a'', ''/B/b'']
   \<and> moduleReference (sampleManager []) ''/A/a'' (Impl (ModuleManager watchingOneEach)) = Some 0
   \<and> fileAbsolutePath diskOneEach_Adeleted ''/A/a'' = dirAbsolutePath diskOneEach_Adeleted ''/A''
   \<and> dirExists diskOneEach_Adeleted ''/A'' = False
   \<and> filterInvalidDirectories diskOneEach_Adeleted [''/B''] = [''/B'']
   \<and> extractCurrentlyWatchedFilenamesInDirectory diskOneEach_Adeleted watchingOneEach ''/A'' = []
   \<and> modulesToUnload diskOneEach_Adeleted watchingOneEach [''/B''] = []
   \<and> keys (setDirectories diskOneEach_Adeleted (sampleManager []) [''/B''] watchingOneEach)
       = [''/A/a'', ''/B/b'']
   \<and> directories (setDirectories diskOneEach_Adeleted (sampleManager []) [''/B''] watchingOneEach)
       = [''/B'']
   \<and> ModuleManager (setDirectories diskOneEach_Adeleted (sampleManager []) [''/B''] watchingOneEach)
       = ModuleManager watchingOneEach
   \<and> keys (setDirectories diskOneEach_Adeleted (sampleManager []) []
        (setDirectories diskOneEach_Adeleted (sampleManager []) [''/B''] watchingOneEach))
       = [''/A/a'']
   \<and> moduleReference (sampleManager []) ''/A/a''
        (Impl (ModuleManager (setDirectories diskOneEach_Adeleted (sampleManager []) []
          (setDirectories diskOneEach_Adeleted (sampleManager []) [''/B''] watchingOneEach))))
       = Some 0"
  by code_simp

section \<open>Calling setDirectories again\<close>

lemma updateWatchedPaths_eq:
  "updateWatchedPaths fs dirs fls d
     = d\<lparr>FileSystemWatcher := addPaths fs fls (addPaths fs dirs \<lparr>watchedDirectories = [], watchedFiles = []\<rparr>)\<rparr>"
proof -
  have "updateWatchedPaths fs dirs fls d = d\<lparr>FileSystemWatcher := FileSystemWatcher (updateWatchedPaths fs dirs fls d)\<rparr>"
    by (simp add: updateWatchedPaths_def Let_def)
  then show ?thesis by (simp only: updateWatchedPaths_watcher)
qed

lemma addPath_dirs:
  "set (watchedDirectories (addPath fs p w))
     = set (watchedDirectories w) \<union> (if p \<noteq> [] \<and> dirExists fs p then {p} else {})"
  by (auto simp: addPath_def)

lemma addPaths_dirs:
  "set (watchedDirectories (addPaths fs ps w))
     = set (watchedDirectories w) \<union> {p \<in> set ps. p \<noteq> [] \<and> dirExists fs p}"
  unfolding addPaths_def
  by (induction ps arbitrary: w) (auto simp: addPath_dirs)

lemma loadModules_all_keys:
  assumes "None \<notin> set (fst (loadModules mgr xs d))"
  shows "set (keys (snd (loadModules mgr xs d))) = set (keys d) \<union> set xs"
proof -
  let ?refs = "fst (loadModules mgr xs d)"
  have len: "length ?refs = length xs" by (rule loadModules_length)
  have ok: "?refs ! i \<noteq> None" if "i < length xs" for i
    using assms that len by (metis nth_mem)
  have "{x. \<exists>r. (x, r) \<in> set (zip xs ?refs) \<and> r \<noteq> None} = set xs"
  proof (intro equalityI subsetI)
    fix x assume "x \<in> {x. \<exists>r. (x, r) \<in> set (zip xs ?refs) \<and> r \<noteq> None}"
    then show "x \<in> set xs" by (auto dest: set_zip_leftD)
  next
    fix x assume "x \<in> set xs"
    then obtain i where i: "i < length xs" "xs ! i = x" by (auto simp: in_set_conv_nth)
    with len have "(x, ?refs ! i) \<in> set (zip xs ?refs)" by (auto simp: in_set_zip)
    with ok[OF i(1)] show "x \<in> {x. \<exists>r. (x, r) \<in> set (zip xs ?refs) \<and> r \<noteq> None}" by blast
  qed
  then show ?thesis unfolding keys_def loadModules_map storeValid_keys by simp
qed

lemma setDirectories_keys:
  "keys (setDirectories fs mgr dirs d) = keys (setModuleReferences fs mgr (filterInvalidDirectories fs dirs) d)"
  by (simp add: keys_def setDirectories_map)

lemma setDirectories_directories:
  "set (directories (setDirectories fs mgr dirs d))
     = {p \<in> set (filterInvalidDirectories fs dirs). p \<noteq> [] \<and> dirExists fs p}
       \<union> {p \<in> set (keys (setDirectories fs mgr dirs d)). p \<noteq> [] \<and> dirExists fs p}"
  unfolding setDirectories_keys
  by (simp add: setDirectories_def Let_def directories_def updateWatchedPaths_watcher addPaths_dirs)

lemma setModuleReferences_all_keys:
  assumes "None \<notin> set (fst (loadModules mgr (modulesToLoad fs d dirs)
                                 (unloadModules mgr (modulesToUnload fs d dirs) d)))"
  shows "set (keys (setModuleReferences fs mgr dirs d))
       = (set (keys d) - set (modulesToUnload fs d dirs)) \<union> set (modulesToLoad fs d dirs)"
proof -
  have "set (keys (unloadModules mgr (modulesToUnload fs d dirs) d))
      = set (keys d) - set (modulesToUnload fs d dirs)"
    unfolding keys_def unloadModules_map by (rule keys_fold_delete)
  then show ?thesis
    unfolding setModuleReferences_def loadModules_all_keys[OF assms] by simp
qed

text \<open>
  C8, as amended. The hypotheses, in the order of the theorem:
  \<^item> every registration of the first call has given a valid reference;
  \<^item> on the disk, which is the same for both calls, every valid requested directory has a
    non-empty absolute path that exists and is its own absolute path;
  \<^item> an executable listed in a valid requested directory is an absolute file path, lies in
    that directory and is no directory itself;
  \<^item> before the first call, the watched directories that exist are absolute paths;
  \<^item> before the first call, every tracked file is an absolute path, is no directory and
    lies in a watched directory (the invariant of the watch state).
  Then the second \<^verbatim>\<open>setDirectories\<close> with the same list finds nothing to unload and nothing
  to load, and returns the state the first call left, the manager and its history
  included.
\<close>

theorem setDirectories_idempotent:
  assumes succeeded: "None \<notin> set (fst (loadModules mgr
        (modulesToLoad fs d (filterInvalidDirectories fs dirs))
        (unloadModules mgr (modulesToUnload fs d (filterInvalidDirectories fs dirs)) d)))"
    and absdirs: "\<forall>v \<in> set (filterInvalidDirectories fs dirs).
        v \<noteq> [] \<and> dirExists fs v \<and> dirAbsolutePath fs v = v"
    and entries: "\<forall>v \<in> set (filterInvalidDirectories fs dirs).
        \<forall>e \<in> set (getExecutablesInDirectory fs v).
          fileAbsolutePath fs e = v \<and> fileAbsoluteFilePath fs e = e \<and> \<not> dirExists fs e"
    and watched: "\<forall>w \<in> set (directories d). dirExists fs w \<longrightarrow> dirAbsolutePath fs w = w"
    and trackedk: "\<forall>k \<in> set (keys d).
        fileAbsoluteFilePath fs k = k \<and> \<not> dirExists fs k \<and> fileAbsolutePath fs k \<in> set (directories d)"
  shows "modulesToUnload fs (setDirectories fs mgr dirs d) (filterInvalidDirectories fs dirs) = []
       \<and> modulesToLoad fs (setDirectories fs mgr dirs d) (filterInvalidDirectories fs dirs) = []
       \<and> setDirectories fs mgr dirs (setDirectories fs mgr dirs d) = setDirectories fs mgr dirs d"
proof -
  let ?V = "filterInvalidDirectories fs dirs"
  let ?d1 = "setDirectories fs mgr dirs d"
  let ?U = "modulesToUnload fs d ?V"
  let ?L = "modulesToLoad fs d ?V"
  let ?tr = "extractCurrentlyWatchedFilenamesInDirectory fs"
  let ?ex = "getExecutablesInDirectory fs"
  have K1: "set (keys ?d1) = (set (keys d) - set ?U) \<union> set ?L"
    unfolding setDirectories_keys by (rule setModuleReferences_all_keys[OF succeeded])
  have Lexec: "\<exists>q \<in> set ?V. e \<in> set (?ex q)" if "e \<in> set ?L" for e
    using that by (auto simp: in_modulesToLoad)
  have key_nodir: "\<not> dirExists fs k" if "k \<in> set (keys ?d1)" for k
  proof (cases "k \<in> set ?L")
    case True
    with Lexec entries show ?thesis by blast
  next
    case False
    with that K1 have "k \<in> set (keys d)" by blast
    with trackedk show ?thesis by blast
  qed
  have W1: "set (directories ?d1) = set ?V"
    unfolding setDirectories_directories using absdirs key_nodir by blast
  \<comment> \<open>every tracked file of a requested directory is one of its executables\<close>
  have tr_sub: "set (?tr ?d1 p) \<subseteq> set (?ex p)" if p: "p \<in> set ?V" for p
  proof
    fix f assume "f \<in> set (?tr ?d1 p)"
    then obtain k where k: "k \<in> set (keys ?d1)" "fileAbsolutePath fs k = dirAbsolutePath fs p"
        "f = fileAbsoluteFilePath fs k" and ep: "dirExists fs p"
      by (auto simp: in_extract)
    from absdirs p have ap: "dirAbsolutePath fs p = p" by blast
    show "f \<in> set (?ex p)"
    proof (cases "k \<in> set ?L")
      case True
      then obtain q where q: "q \<in> set ?V" "k \<in> set (?ex q)" using Lexec by blast
      with entries have "fileAbsolutePath fs k = q" "fileAbsoluteFilePath fs k = k" by blast+
      with k ap q show ?thesis by simp
    next
      case False
      with k(1) K1 have k0: "k \<in> set (keys d)" and nu: "k \<notin> set ?U" by blast+
      from trackedk k0 have kk: "fileAbsoluteFilePath fs k = k" "fileAbsolutePath fs k \<in> set (directories d)"
        by blast+
      with k ap have pw: "p \<in> set (directories d)" by simp
      have "k \<in> set (?tr d p)"
        using k0 k(2) kk(1) ep by (auto simp: in_extract)
      with nu p pw have "k \<in> set (?ex p)" by (auto simp: in_modulesToUnload)
      with k(3) kk(1) show ?thesis by simp
    qed
  qed
  \<comment> \<open>every executable of a requested directory is tracked\<close>
  have ex_sub: "set (?ex p) \<subseteq> set (?tr ?d1 p)" if p: "p \<in> set ?V" for p
  proof
    fix e assume e: "e \<in> set (?ex p)"
    from absdirs p have ap: "dirAbsolutePath fs p = p" and ep: "dirExists fs p" by blast+
    from entries p e have pe: "fileAbsolutePath fs e = p" and ae: "fileAbsoluteFilePath fs e = e"
      by blast+
    have "e \<in> set (keys ?d1)"
    proof (cases "e \<in> set ?L")
      case True
      with K1 show ?thesis by blast
    next
      case False
      with p e have pw: "p \<in> set (directories d)" and et: "e \<in> set (?tr d p)"
        by (auto simp: in_modulesToLoad)
      from et obtain k where k: "k \<in> set (keys d)" "e = fileAbsoluteFilePath fs k"
        by (auto simp: in_extract)
      with trackedk have e0: "e \<in> set (keys d)" by auto
      have "e \<notin> set ?U"
      proof
        assume "e \<in> set ?U"
        then consider w where "w \<in> set (directories d)" "w \<notin> set ?V" "e \<in> set (?tr d w)"
          | q where "q \<in> set ?V" "q \<in> set (directories d)" "e \<in> set (?tr d q)" "e \<notin> set (?ex q)"
          by (auto simp: in_modulesToUnload)
        then show False
        proof cases
          case 1
          from 1(3) obtain k' where k': "k' \<in> set (keys d)"
              "fileAbsolutePath fs k' = dirAbsolutePath fs w" "e = fileAbsoluteFilePath fs k'"
              and ew: "dirExists fs w"
            by (auto simp: in_extract)
          from trackedk k' have "e = k'" by auto
          with k'(2) pe have "dirAbsolutePath fs w = p" by simp
          moreover from watched 1(1) ew have "dirAbsolutePath fs w = w" by blast
          ultimately show False using 1(2) p by simp
        next
          case 2
          from 2(3) obtain k' where k': "k' \<in> set (keys d)"
              "fileAbsolutePath fs k' = dirAbsolutePath fs q" "e = fileAbsoluteFilePath fs k'"
            by (auto simp: in_extract)
          from trackedk k' have "e = k'" by auto
          with k'(2) pe have "dirAbsolutePath fs q = p" by simp
          moreover from absdirs 2(1) have "dirAbsolutePath fs q = q" by blast
          ultimately show False using 2(4) e by simp
        qed
      qed
      with e0 K1 show ?thesis by blast
    qed
    with ep pe ap ae show "e \<in> set (?tr ?d1 p)"
      by (auto simp: in_extract)
  qed
  have U': "modulesToUnload fs ?d1 ?V = []"
  proof -
    have 1: "concat (map (\<lambda>path. if path \<notin> set ?V then ?tr ?d1 path else []) (directories ?d1)) = []"
      by (rule concat_map_Nil) (use W1 in auto)
    have 2: "concat (map (\<lambda>path. if path \<in> set (directories ?d1) then
         filter (\<lambda>executable. executable \<notin> set (?ex path)) (?tr ?d1 path) else []) ?V) = []"
      by (rule concat_map_Nil) (use tr_sub in \<open>auto simp: filter_empty_conv\<close>)
    show ?thesis unfolding modulesToUnload_def 1 2 by simp
  qed
  have L': "modulesToLoad fs ?d1 ?V = []"
    unfolding modulesToLoad_def
    by (rule concat_map_Nil) (use ex_sub W1 in \<open>auto simp: filter_empty_conv\<close>)
  have same: "setModuleReferences fs mgr ?V ?d1 = ?d1"
    by (simp add: setModuleReferences_def U' L' loadModules_Nil unloadModules_Nil)
  have "setDirectories fs mgr dirs ?d1 = updateWatchedPaths fs ?V (keys ?d1) ?d1"
    by (simp add: setDirectories_def[of fs mgr dirs ?d1] Let_def same)
  also have "\<dots> = ?d1"
    unfolding setDirectories_keys
    by (simp add: updateWatchedPaths_eq setDirectories_def[of fs mgr dirs d] Let_def keys_def)
  finally have again: "setDirectories fs mgr dirs ?d1 = ?d1" .
  from U' L' again show ?thesis by blast
qed

text \<open>
  C8, as stated, fails when a registration fails in the first call: \<^verbatim>\<open>/A/y\<close> is rejected by
  the manager, so it is not tracked after the first call, and the second call with the
  same list on the same disk tries to load it again.
\<close>

theorem setDirectories_retries_failed_load_counterexample:
  "keys (setDirectories diskAB (sampleManager [''/A/y'']) [''/A'', ''/B''] (construct freshManager))
     = [''/A/x'', ''/B/z'']
   \<and> modulesToLoad diskAB
        (setDirectories diskAB (sampleManager [''/A/y'']) [''/A'', ''/B''] (construct freshManager))
        (filterInvalidDirectories diskAB [''/A'', ''/B'']) = [''/A/y'']
   \<and> History (ModuleManager (setDirectories diskAB (sampleManager [''/A/y'']) [''/A'', ''/B'']
        (setDirectories diskAB (sampleManager [''/A/y'']) [''/A'', ''/B''] (construct freshManager))))
       = History (ModuleManager
           (setDirectories diskAB (sampleManager [''/A/y'']) [''/A'', ''/B''] (construct freshManager)))
         @ [RegisterModule ''/A/y'']"
  by code_simp

text \<open>
  C8, as amended, from the state that watches \<^verbatim>\<open>/A/a\<close> and \<^verbatim>\<open>/B/b\<close>, on the disk with \<^verbatim>\<open>x\<close>,
  \<^verbatim>\<open>y\<close> and \<^verbatim>\<open>z\<close>, for a list with a blank entry and a directory that does not exist: the
  first call replaces the tracked files, the second changes nothing.
\<close>

theorem setDirectories_idempotent_witness:
  "filterInvalidDirectories diskAB [''/A'', '' '', ''/C'', ''/B''] = [''/A'', ''/B'']
   \<and> keys watchingOneEach = [''/A/a'', ''/B/b'']
   \<and> keys (setDirectories diskAB (sampleManager []) [''/A'', '' '', ''/C'', ''/B''] watchingOneEach)
       = [''/A/x'', ''/A/y'', ''/B/z'']
   \<and> modulesToUnload diskAB
        (setDirectories diskAB (sampleManager []) [''/A'', '' '', ''/C'', ''/B''] watchingOneEach)
        (filterInvalidDirectories diskAB [''/A'', '' '', ''/C'', ''/B'']) = []
   \<and> modulesToLoad diskAB
        (setDirectories diskAB (sampleManager []) [''/A'', '' '', ''/C'', ''/B''] watchingOneEach)
        (filterInvalidDirectories diskAB [''/A'', '' '', ''/C'', ''/B'']) = []
   \<and> setDirectories diskAB (sampleManager []) [''/A'', '' '', ''/C'', ''/B'']
        (setDirectories diskAB (sampleManager []) [''/A'', '' '', ''/C'', ''/B''] watchingOneEach)
       = setDirectories diskAB (sampleManager []) [''/A'', '' '', ''/C'', ''/B''] watchingOneEach"
proof -
  let ?fs = diskAB and ?d = watchingOneEach and ?mgr = "sampleManager []"
  let ?dirs = "[''/A'', '' '', ''/C'', ''/B'']"
  have v: "filterInvalidDirectories ?fs ?dirs = [''/A'', ''/B'']" by code_simp
  have k0: "keys ?d = [''/A/a'', ''/B/b'']" by code_simp
  have k1: "keys (setDirectories ?fs ?mgr ?dirs ?d) = [''/A/x'', ''/A/y'', ''/B/z'']" by code_simp
  have succeeded: "None \<notin> set (fst (loadModules ?mgr
        (modulesToLoad ?fs ?d (filterInvalidDirectories ?fs ?dirs))
        (unloadModules ?mgr (modulesToUnload ?fs ?d (filterInvalidDirectories ?fs ?dirs)) ?d)))"
    by code_simp
  have absdirs: "\<forall>v \<in> set (filterInvalidDirectories ?fs ?dirs).
        v \<noteq> [] \<and> dirExists ?fs v \<and> dirAbsolutePath ?fs v = v"
    by code_simp
  have entries: "\<forall>v \<in> set (filterInvalidDirectories ?fs ?dirs).
        \<forall>e \<in> set (getExecutablesInDirectory ?fs v).
          fileAbsolutePath ?fs e = v \<and> fileAbsoluteFilePath ?fs e = e \<and> \<not> dirExists ?fs e"
    by code_simp
  have watched: "\<forall>w \<in> set (directories ?d). dirExists ?fs w \<longrightarrow> dirAbsolutePath ?fs w = w"
    by code_simp
  have trackedk: "\<forall>k \<in> set (keys ?d).
        fileAbsoluteFilePath ?fs k = k \<and> \<not> dirExists ?fs k \<and> fileAbsolutePath ?fs k \<in> set (directories ?d)"
    by code_simp
  note t = setDirectories_idempotent[OF succeeded absdirs entries watched trackedk]
  show ?thesis
    by (intro conjI) (fact v k0 k1 t[THEN conjunct1] t[THEN conjunct2, THEN conjunct1]
        t[THEN conjunct2, THEN conjunct2])+
qed

text \<open>
  The last hypothesis is needed. In the state that the deleted directory above leaves,
  \<^verbatim>\<open>/A/a\<close> is tracked and \<^verbatim>\<open>/A\<close> is not watched. When \<^verbatim>\<open>/A\<close> is on the disk again with the
  executable \<^verbatim>\<open>/A/c\<close>, the first \<^verbatim>\<open>setDirectories([/A, /B])\<close> takes \<^verbatim>\<open>/A\<close> as a new folder:
  it loads \<^verbatim>\<open>/A/c\<close>, with success, and keeps \<^verbatim>\<open>/A/a\<close>. The second call takes \<^verbatim>\<open>/A\<close> as a
  watched folder and has \<^verbatim>\<open>/A/a\<close> to unload.
\<close>

lemma setDirectories_untracked_directory_second_call:
  "directories (setDirectories diskOneEach_Adeleted (sampleManager []) [''/B''] watchingOneEach) = [''/B'']
   \<and> keys (setDirectories diskOneEach_Adeleted (sampleManager []) [''/B''] watchingOneEach)
       = [''/A/a'', ''/B/b'']
   \<and> fst (loadModules (sampleManager [])
        (modulesToLoad (sampleDisk [(''/A'', [''/A/c'']), (''/B'', [''/B/b''])])
           (setDirectories diskOneEach_Adeleted (sampleManager []) [''/B''] watchingOneEach)
           [''/A'', ''/B''])
        (unloadModules (sampleManager [])
           (modulesToUnload (sampleDisk [(''/A'', [''/A/c'']), (''/B'', [''/B/b''])])
              (setDirectories diskOneEach_Adeleted (sampleManager []) [''/B''] watchingOneEach)
              [''/A'', ''/B''])
           (setDirectories diskOneEach_Adeleted (sampleManager []) [''/B''] watchingOneEach)))
       = [Some 2]
   \<and> keys (setDirectories (sampleDisk [(''/A'', [''/A/c'']), (''/B'', [''/B/b''])]) (sampleManager [])
        [''/A'', ''/B'']
        (setDirectories diskOneEach_Adeleted (sampleManager []) [''/B''] watchingOneEach))
       = [''/A/a'', ''/B/b'', ''/A/c'']
   \<and> modulesToUnload (sampleDisk [(''/A'', [''/A/c'']), (''/B'', [''/B/b''])])
        (setDirectories (sampleDisk [(''/A'', [''/A/c'']), (''/B'', [''/B/b''])]) (sampleManager [])
           [''/A'', ''/B'']
           (setDirectories diskOneEach_Adeleted (sampleManager []) [''/B''] watchingOneEach))
        [''/A'', ''/B'']
       = [''/A/a'']"
  by code_simp

end
